theory Spec2Isabelle
  imports Complex_Main
begin

section \<open>The application updater of \<^verbatim>\<open>auto-claude-ui\<close>\<close>

text \<open>
  A shallow embedding of the updater module of
  \<^verbatim>\<open>src/auto-claude-ui/src/preload/api/index.ts\<close> (lines 53 to 243): the module
  variables, the six closures registered on \<^verbatim>\<open>autoUpdater\<close>, the two timers and
  the exported functions. The module's effects (console output, messages sent to the
  renderer, calls into \<^verbatim>\<open>electron-updater\<close>, timers) are traces in an explicit
  world that every function takes and returns. The host runs the module on one thread:
  a call of an asynchronous function is taken with everything the library does until its
  promise settles, a rejected promise being an exception at the \<^verbatim>\<open>await\<close>.
\<close>

subsection \<open>JavaScript values\<close>

text \<open>The two properties of an \<^verbatim>\<open>Error\<close> object the module reads.\<close>

record js_error =
  message :: string
  stack :: "string option"

datatype js_value =
    JUndefined
  | JNull
  | JBool bool
  | JNumber real
  | JString string
  | JErrorObj js_error
  | JOpaque nat

text \<open>An object literal: its properties in the order they are written.\<close>

type_synonym js_obj = "(string \<times> js_value) list"

text \<open>A call either returns (a promise resolves) or throws (a promise rejects).\<close>

datatype 'a outcome = Returns 'a | Throws js_error

definition js_opt_string :: "string option \<Rightarrow> js_value" where
  "js_opt_string x = (case x of None \<Rightarrow> JUndefined | Some t \<Rightarrow> JString t)"

subsection \<open>What \<^verbatim>\<open>electron-updater\<close> hands to the module\<close>

text \<open>
  \<^verbatim>\<open>UpdateInfo\<close>: the release notes are a string, a list of notes, null or
  undefined, so they stay a \<^typ>\<open>js_value\<close>.
\<close>

record update_info =
  version :: string
  releaseNotes :: js_value
  releaseDate :: string

record progress_info =
  percent :: real
  bytesPerSecond :: real
  transferred :: real
  total' :: real

datatype updater_event =
    UpdateAvailable update_info
  | UpdateDownloaded update_info
  | DownloadProgress progress_info
  | ErrorEvent js_error
  | UpdateNotAvailable update_info
  | CheckingForUpdate

text \<open>
  The module cannot see inside \<^verbatim>\<open>autoUpdater.checkForUpdates()\<close> and
  \<^verbatim>\<open>autoUpdater.downloadUpdate()\<close>. One call of either is given by what the
  library does during it: the events it emits, in order, and how its promise settles.
\<close>

record 'a response =
  emitted :: "updater_event list"
  settles :: "'a outcome"

type_synonym check_response = "update_info option response"
type_synonym download_response = "unit response"

subsection \<open>The world\<close>

type_synonym window = nat

text \<open>
  \<^verbatim>\<open>IPC_CHANNELS\<close> is imported from \<^verbatim>\<open>../shared/constants\<close>; the four channels
  the module uses are kept by name.
\<close>

datatype channel =
    APP_UPDATE_AVAILABLE
  | APP_UPDATE_DOWNLOADED
  | APP_UPDATE_PROGRESS
  | APP_UPDATE_ERROR

datatype log_level = Log | Err

record log_entry =
  level :: log_level
  text_of :: string
  args :: "js_value list"

text \<open>The closures of lines 104 to 159, each registered under one event name.\<close>

datatype handler =
    OnUpdateAvailable
  | OnUpdateDownloaded
  | OnDownloadProgress
  | OnError
  | OnUpdateNotAvailable
  | OnCheckingForUpdate

text \<open>The closures of lines 166 to 171 and 175 to 180.\<close>

datatype timer_callback = InitialCheck | PeriodicCheck

record timer =
  repeating :: bool
  delay :: nat
  due :: nat
  callback :: timer_callback

text \<open>
  Calls into \<^verbatim>\<open>autoUpdater\<close>. The arguments of \<^verbatim>\<open>quitAndInstall\<close> are, in
  the order of \<^verbatim>\<open>electron-updater\<close>'s signature, \<^verbatim>\<open>isSilent\<close> and
  \<^verbatim>\<open>isForceRunAfter\<close>. The last entry is not a call of the module: it is the
  install that the library starts by itself when the application quits.
\<close>

datatype updater_call =
    CheckForUpdates
  | DownloadUpdate
  | QuitAndInstall bool bool
  | InstallOnQuit update_info

record world =
  autoDownload :: bool
  autoInstallOnAppQuit :: bool
  currentVersion :: string
  mainWindow :: "window option"
  listeners :: "handler list"
  timers :: "timer list"
  now :: nat
  fired :: "(nat \<times> timer_callback) list"
  console :: "log_entry list"
  ipc :: "(window \<times> channel \<times> js_obj) list"
  updater_calls :: "updater_call list"
  destroyed :: "window list"

definition console_log :: "string \<Rightarrow> js_value list \<Rightarrow> world \<Rightarrow> world" where
  "console_log t vs s = s\<lparr>console := console s @ [\<lparr>level = Log, text_of = t, args = vs\<rparr>]\<rparr>"

definition console_error :: "string \<Rightarrow> js_value list \<Rightarrow> world \<Rightarrow> world" where
  "console_error t vs s = s\<lparr>console := console s @ [\<lparr>level = Err, text_of = t, args = vs\<rparr>]\<rparr>"

text \<open>
  \<^verbatim>\<open>mainWindow.webContents.send(channel, payload)\<close>. Reading a property of null
  throws a TypeError, and so does reading \<^verbatim>\<open>webContents\<close> of a window that has
  been destroyed (the module never clears \<^verbatim>\<open>mainWindow\<close>, so the variable can
  hold one); on a live window the message is sent.
\<close>

definition null_dereference :: js_error where
  "null_dereference =
     \<lparr>message = ''TypeError: Cannot read properties of null (reading webContents)'',
      stack = None\<rparr>"

definition object_destroyed :: js_error where
  "object_destroyed = \<lparr>message = ''TypeError: Object has been destroyed'', stack = None\<rparr>"

definition webContents_send :: "channel \<Rightarrow> js_obj \<Rightarrow> world \<Rightarrow> unit outcome \<times> world" where
  "webContents_send c payload s =
     (case mainWindow s of
        None \<Rightarrow> (Throws null_dereference, s)
      | Some w \<Rightarrow>
          if w \<in> set (destroyed s) then (Throws object_destroyed, s)
          else (Returns (), s\<lparr>ipc := ipc s @ [(w, c, payload)]\<rparr>))"

text \<open>\<^verbatim>\<open>if (mainWindow) { mainWindow.webContents.send(...) }\<close>\<close>

definition send_if_window :: "channel \<Rightarrow> js_obj \<Rightarrow> world \<Rightarrow> unit outcome \<times> world" where
  "send_if_window c payload s =
     (case mainWindow s of
        None \<Rightarrow> (Returns (), s)
      | Some w \<Rightarrow> webContents_send c payload s)"

subsection \<open>Module load (lines 77 to 81)\<close>

definition module_load :: "world \<Rightarrow> world" where
  "module_load s = s\<lparr>autoDownload := True, autoInstallOnAppQuit := True, mainWindow := None\<rparr>"

subsection \<open>The event handlers (lines 104 to 159)\<close>

definition info_payload :: "update_info \<Rightarrow> js_obj" where
  "info_payload info =
     [(''version'', JString (version info)),
      (''releaseNotes'', releaseNotes info),
      (''releaseDate'', JString (releaseDate info))]"

definition progress_payload :: "progress_info \<Rightarrow> js_obj" where
  "progress_payload p =
     [(''percent'', JNumber (percent p)),
      (''bytesPerSecond'', JNumber (bytesPerSecond p)),
      (''transferred'', JNumber (transferred p)),
      (''total'', JNumber (total' p))]"

definition error_payload :: "js_error \<Rightarrow> js_obj" where
  "error_payload e =
     [(''message'', JString (message e)),
      (''stack'', js_opt_string (stack e))]"

definition on_update_available :: "update_info \<Rightarrow> world \<Rightarrow> unit outcome \<times> world" where
  "on_update_available info s =
     send_if_window APP_UPDATE_AVAILABLE (info_payload info)
       (console_log ''[app-updater] Update available:'' [JString (version info)] s)"

definition on_update_downloaded :: "update_info \<Rightarrow> world \<Rightarrow> unit outcome \<times> world" where
  "on_update_downloaded info s =
     send_if_window APP_UPDATE_DOWNLOADED (info_payload info)
       (console_log ''[app-updater] Update downloaded:'' [JString (version info)] s)"

text \<open>
  The logged text is a template with \<^verbatim>\<open>progress.percent.toFixed(2)\<close>; the entry
  keeps the number it formats.
\<close>

definition on_download_progress :: "progress_info \<Rightarrow> world \<Rightarrow> unit outcome \<times> world" where
  "on_download_progress p s =
     send_if_window APP_UPDATE_PROGRESS (progress_payload p)
       (console_log ''[app-updater] Download progress: %'' [JNumber (percent p)] s)"

definition on_error :: "js_error \<Rightarrow> world \<Rightarrow> unit outcome \<times> world" where
  "on_error e s =
     send_if_window APP_UPDATE_ERROR (error_payload e)
       (console_error ''[app-updater] Update error:'' [JErrorObj e] s)"

definition on_update_not_available :: "update_info \<Rightarrow> world \<Rightarrow> unit outcome \<times> world" where
  "on_update_not_available info s =
     (Returns (),
      console_log ''[app-updater] No updates available. Current version:''
        [JString (version info)] s)"

definition on_checking_for_update :: "world \<Rightarrow> unit outcome \<times> world" where
  "on_checking_for_update s =
     (Returns (), console_log ''[app-updater] Checking for updates...'' [] s)"

text \<open>
  One registered closure meets one emitted event: it runs when the event is the one it
  was registered for, and is passed over otherwise.
\<close>

fun dispatch :: "handler \<Rightarrow> updater_event \<Rightarrow> world \<Rightarrow> unit outcome \<times> world" where
  "dispatch OnUpdateAvailable (UpdateAvailable info) s = on_update_available info s"
| "dispatch OnUpdateDownloaded (UpdateDownloaded info) s = on_update_downloaded info s"
| "dispatch OnDownloadProgress (DownloadProgress p) s = on_download_progress p s"
| "dispatch OnError (ErrorEvent e) s = on_error e s"
| "dispatch OnUpdateNotAvailable (UpdateNotAvailable info) s = on_update_not_available info s"
| "dispatch OnCheckingForUpdate CheckingForUpdate s = on_checking_for_update s"
| "dispatch _ _ s = (Returns (), s)"

text \<open>
  \<^verbatim>\<open>emit\<close> of the event emitter: the listeners run in the order of registration,
  and a listener that throws ends the emission.
\<close>

fun run_listeners :: "handler list \<Rightarrow> updater_event \<Rightarrow> world \<Rightarrow> unit outcome \<times> world" where
  "run_listeners [] ev s = (Returns (), s)"
| "run_listeners (h # hs) ev s =
     (case dispatch h ev s of
        (Throws e, s') \<Rightarrow> (Throws e, s')
      | (Returns _, s') \<Rightarrow> run_listeners hs ev s')"

definition emit :: "updater_event \<Rightarrow> world \<Rightarrow> unit outcome \<times> world" where
  "emit ev s = run_listeners (listeners s) ev s"

fun emit_all :: "updater_event list \<Rightarrow> world \<Rightarrow> unit outcome \<times> world" where
  "emit_all [] s = (Returns (), s)"
| "emit_all (ev # evs) s =
     (case emit ev s of
        (Throws e, s') \<Rightarrow> (Throws e, s')
      | (Returns _, s') \<Rightarrow> emit_all evs s')"

subsection \<open>Calls into the library\<close>

text \<open>
  One call of a library operation: the call is recorded, the library emits its events,
  and the promise settles as the response says. A listener that throws ends the
  emission inside the library; what the library makes of that exception is part of its
  answer, so the settlement is the one the response gives.
\<close>

definition library_call :: "updater_call \<Rightarrow> 'a response \<Rightarrow> world \<Rightarrow> 'a outcome \<times> world" where
  "library_call c r s =
     (settles r, snd (emit_all (emitted r) (s\<lparr>updater_calls := updater_calls s @ [c]\<rparr>)))"

definition autoUpdater_checkForUpdates ::
  "check_response \<Rightarrow> world \<Rightarrow> update_info option outcome \<times> world" where
  "autoUpdater_checkForUpdates r s = library_call CheckForUpdates r s"

definition autoUpdater_downloadUpdate ::
  "download_response \<Rightarrow> world \<Rightarrow> unit outcome \<times> world" where
  "autoUpdater_downloadUpdate r s = library_call DownloadUpdate r s"

subsection \<open>Timers\<close>

definition setTimeout :: "timer_callback \<Rightarrow> nat \<Rightarrow> world \<Rightarrow> world" where
  "setTimeout cb d s =
     s\<lparr>timers := timers s @ [\<lparr>repeating = False, delay = d, due = now s + d, callback = cb\<rparr>]\<rparr>"

definition setInterval :: "timer_callback \<Rightarrow> nat \<Rightarrow> world \<Rightarrow> world" where
  "setInterval cb d s =
     s\<lparr>timers := timers s @ [\<lparr>repeating = True, delay = d, due = now s + d, callback = cb\<rparr>]\<rparr>"

definition FOUR_HOURS :: nat where
  "FOUR_HOURS = 4 * 60 * 60 * 1000"

text \<open>
  The bodies of the two timer closures: a log line, then
  \<^verbatim>\<open>autoUpdater.checkForUpdates().catch(...)\<close>, whose handler logs the error.
\<close>

definition timer_text :: "timer_callback \<Rightarrow> string" where
  "timer_text cb =
     (case cb of
        InitialCheck \<Rightarrow> ''[app-updater] Performing initial update check''
      | PeriodicCheck \<Rightarrow> ''[app-updater] Performing periodic update check'')"

definition timer_failure_text :: "timer_callback \<Rightarrow> string" where
  "timer_failure_text cb =
     (case cb of
        InitialCheck \<Rightarrow> ''[app-updater] Initial update check failed:''
      | PeriodicCheck \<Rightarrow> ''[app-updater] Periodic update check failed:'')"

definition timer_body :: "timer_callback \<Rightarrow> check_response \<Rightarrow> world \<Rightarrow> unit outcome \<times> world" where
  "timer_body cb r s =
     (case autoUpdater_checkForUpdates r (console_log (timer_text cb) [] s) of
        (Throws e, s') \<Rightarrow> (Returns (), console_error (timer_failure_text cb) [JErrorObj e] s')
      | (Returns _, s') \<Rightarrow> (Returns (), s'))"

text \<open>
  The host's timer queue. The timer that is due first fires (the one armed first when
  two are due together): the clock moves to its time, a one-shot timer leaves the queue,
  a repeating one is due again after its delay, and the closure runs. The index that
  \<open>next_due\<close> returns is a position of the queue, so every read of the queue is in
  range.
\<close>

fun next_due :: "timer list \<Rightarrow> nat option" where
  "next_due [] = None"
| "next_due (t # ts) =
     (case next_due ts of
        None \<Rightarrow> Some 0
      | Some j \<Rightarrow> if due t \<le> due (ts ! j) then Some 0 else Some (Suc j))"

definition rearm :: "nat \<Rightarrow> timer list \<Rightarrow> timer list" where
  "rearm i ts =
     (if repeating (ts ! i) then ts[i := (ts ! i)\<lparr>due := due (ts ! i) + delay (ts ! i)\<rparr>]
      else take i ts @ drop (Suc i) ts)"

definition fire_next :: "check_response \<Rightarrow> world \<Rightarrow> unit outcome \<times> world" where
  "fire_next r s =
     (case next_due (timers s) of
        None \<Rightarrow> (Returns (), s)
      | Some i \<Rightarrow>
          (let t = timers s ! i; clock = max (now s) (due t)
           in timer_body (callback t) r
                (s\<lparr>now := clock, timers := rearm i (timers s),
                   fired := fired s @ [(clock, callback t)]\<rparr>)))"

fun run_timers :: "check_response list \<Rightarrow> world \<Rightarrow> world" where
  "run_timers [] s = s"
| "run_timers (r # rs) s = run_timers rs (snd (fire_next r s))"

subsection \<open>The exported functions\<close>

text \<open>
  \<^verbatim>\<open>initializeAppUpdater(window)\<close>, lines 91 to 183. The parameter is declared a
  \<^verbatim>\<open>BrowserWindow\<close>; \<^term>\<open>None\<close> is the null or undefined that a caller outside
  the type checker can pass, which the assignment to \<^verbatim>\<open>mainWindow\<close> accepts.
\<close>

definition register_handlers :: "world \<Rightarrow> world" where
  "register_handlers s =
     s\<lparr>listeners := listeners s @
         [OnUpdateAvailable, OnUpdateDownloaded, OnDownloadProgress, OnError,
          OnUpdateNotAvailable, OnCheckingForUpdate]\<rparr>"

definition log_configuration :: "world \<Rightarrow> world" where
  "log_configuration s =
     console_log ''[app-updater] Auto-download enabled:'' [JBool (autoDownload s)]
       (console_log ''[app-updater] Current version:'' [JString (currentVersion s)]
         (console_log ''[app-updater] Initializing app auto-updater'' [] s))"

definition initializeAppUpdater :: "window option \<Rightarrow> world \<Rightarrow> world" where
  "initializeAppUpdater w s =
     console_log ''[app-updater] Auto-updater initialized successfully'' []
       (setInterval PeriodicCheck FOUR_HOURS
         (setTimeout InitialCheck 3000
           (register_handlers
             (log_configuration (s\<lparr>mainWindow := w\<rparr>)))))"

text \<open>\<^verbatim>\<open>checkForUpdates()\<close>, lines 189 to 213.\<close>

definition checkForUpdates :: "check_response \<Rightarrow> world \<Rightarrow> js_obj option outcome \<times> world" where
  "checkForUpdates r s =
     (case autoUpdater_checkForUpdates r
             (console_log ''[app-updater] Manual update check requested'' [] s) of
        (Throws e, s') \<Rightarrow>
          (Throws e, console_error ''[app-updater] Manual update check failed:'' [JErrorObj e] s')
      | (Returns None, s') \<Rightarrow> (Returns None, s')
      | (Returns (Some info), s') \<Rightarrow>
          (if version info \<noteq> currentVersion s' then (Returns (Some (info_payload info)), s')
           else (Returns None, s')))"

text \<open>\<^verbatim>\<open>downloadUpdate()\<close>, lines 219 to 227.\<close>

definition downloadUpdate :: "download_response \<Rightarrow> world \<Rightarrow> unit outcome \<times> world" where
  "downloadUpdate r s =
     (case autoUpdater_downloadUpdate r
             (console_log ''[app-updater] Manual update download requested'' [] s) of
        (Throws e, s') \<Rightarrow>
          (Throws e, console_error ''[app-updater] Manual update download failed:'' [JErrorObj e] s')
      | (Returns _, s') \<Rightarrow> (Returns (), s'))"

text \<open>\<^verbatim>\<open>quitAndInstall()\<close>, lines 233 to 236.\<close>

definition quitAndInstall :: "world \<Rightarrow> world" where
  "quitAndInstall s =
     (let s1 = console_log ''[app-updater] Quitting and installing update'' [] s
      in s1\<lparr>updater_calls := updater_calls s1 @ [QuitAndInstall False True]\<rparr>)"

text \<open>\<^verbatim>\<open>getCurrentVersion()\<close>, lines 241 to 243.\<close>

definition getCurrentVersion :: "world \<Rightarrow> string" where
  "getCurrentVersion s = currentVersion s"

subsection \<open>Runs of the module\<close>

text \<open>
  What can happen to the loaded module: one of its exported functions is called, a
  timer fires, the library emits an event on its own, or a window is destroyed.
\<close>

datatype action =
    CallInitialize "window option"
  | CallCheckForUpdates check_response
  | CallDownloadUpdate download_response
  | CallQuitAndInstall
  | CallGetCurrentVersion
  | TimerFires check_response
  | LibraryEmits updater_event
  | WindowDestroyed window

fun perform :: "action \<Rightarrow> world \<Rightarrow> world" where
  "perform (CallInitialize w) s = initializeAppUpdater w s"
| "perform (CallCheckForUpdates r) s = snd (checkForUpdates r s)"
| "perform (CallDownloadUpdate r) s = snd (downloadUpdate r s)"
| "perform CallQuitAndInstall s = quitAndInstall s"
| "perform CallGetCurrentVersion s = s"
| "perform (TimerFires r) s = snd (fire_next r s)"
| "perform (LibraryEmits ev) s = snd (emit ev s)"
| "perform (WindowDestroyed w) s = s\<lparr>destroyed := w # destroyed s\<rparr>"

fun run :: "action list \<Rightarrow> world \<Rightarrow> world" where
  "run [] s = s"
| "run (a # as) s = run as (perform a s)"

text \<open>A process before the module is loaded: nothing registered, armed or sent.\<close>

definition boot :: "string \<Rightarrow> world" where
  "boot v =
     \<lparr>autoDownload = False, autoInstallOnAppQuit = False, currentVersion = v,
      mainWindow = None, listeners = [], timers = [], now = 0, fired = [],
      console = [], ipc = [], updater_calls = [], destroyed = []\<rparr>"

text \<open>
  The application quits. The handler that runs then is the library's, not the module's:
  the module only sets the flag the handler reads. The comment of line 79 gives the
  flag's meaning, install on quit; the library documents it as installing a downloaded
  update on quit if \<^verbatim>\<open>quitAndInstall\<close> was not called before. The first argument
  is the update that the library has downloaded, if any.
\<close>

fun is_quitAndInstall :: "updater_call \<Rightarrow> bool" where
  "is_quitAndInstall (QuitAndInstall isSilent isForceRunAfter) = True"
| "is_quitAndInstall _ = False"

definition app_quit :: "update_info option \<Rightarrow> world \<Rightarrow> world" where
  "app_quit held s =
     (case held of
        None \<Rightarrow> s
      | Some info \<Rightarrow>
          if autoInstallOnAppQuit s \<and> \<not> list_ex is_quitAndInstall (updater_calls s)
          then s\<lparr>updater_calls := updater_calls s @ [InstallOnQuit info]\<rparr>
          else s)"

subsection \<open>Notions used to state the properties\<close>

text \<open>
  Two worlds that differ at most in the console output and in the messages sent: what an
  event handler may change.
\<close>

definition handler_frame :: "world \<Rightarrow> world \<Rightarrow> bool" where
  "handler_frame s s' =
     (autoDownload s' = autoDownload s \<and> autoInstallOnAppQuit s' = autoInstallOnAppQuit s \<and>
      currentVersion s' = currentVersion s \<and> mainWindow s' = mainWindow s \<and>
      listeners s' = listeners s \<and> timers s' = timers s \<and> now s' = now s \<and>
      fired s' = fired s \<and> updater_calls s' = updater_calls s \<and>
      destroyed s' = destroyed s)"

text \<open>
  The events whose handlers only log: \<^verbatim>\<open>checking-for-update\<close> and
  \<^verbatim>\<open>update-not-available\<close>.
\<close>

fun quiet_event :: "updater_event \<Rightarrow> bool" where
  "quiet_event CheckingForUpdate = True"
| "quiet_event (UpdateNotAvailable info) = True"
| "quiet_event _ = False"

text \<open>
  The message of line 131 for one progress tick.
\<close>

definition progress_message :: "window \<Rightarrow> progress_info \<Rightarrow> window \<times> channel \<times> js_obj" where
  "progress_message w p = (w, APP_UPDATE_PROGRESS, progress_payload p)"

text \<open>
  The timers armed in a world, each by its delay and closure: the repeating ones and the
  one-shot ones.
\<close>

definition armed :: "timer \<Rightarrow> nat \<times> timer_callback" where
  "armed t = (delay t, callback t)"

definition intervals :: "world \<Rightarrow> (nat \<times> timer_callback) list" where
  "intervals s = map armed (filter repeating (timers s))"

definition timeouts :: "world \<Rightarrow> (nat \<times> timer_callback) list" where
  "timeouts s = map armed (filter (\<lambda>t. \<not> repeating t) (timers s))"

text \<open>
  The two timers of lines 166 to 180, armed at time \<open>t0\<close>, and the times at which the
  host fires them: the first \<open>n\<close> firings.
\<close>

definition startup_timer :: "nat \<Rightarrow> timer" where
  "startup_timer t0 = \<lparr>repeating = False, delay = 3000, due = t0 + 3000, callback = InitialCheck\<rparr>"

definition poll_timer :: "nat \<Rightarrow> timer" where
  "poll_timer d = \<lparr>repeating = True, delay = 14400000, due = d, callback = PeriodicCheck\<rparr>"

definition schedule :: "nat \<Rightarrow> nat \<Rightarrow> (nat \<times> timer_callback) list" where
  "schedule t0 n =
     take n ((t0 + 3000, InitialCheck) #
       map (\<lambda>k. (t0 + Suc k * 14400000, PeriodicCheck)) [0..<n])"

text \<open>
  The property names of the payload on each channel, as the object literals of lines 107,
  119, 131 and 144 write them.
\<close>

definition channel_keys :: "channel \<Rightarrow> string list" where
  "channel_keys c =
     (case c of
        APP_UPDATE_AVAILABLE \<Rightarrow> [''version'', ''releaseNotes'', ''releaseDate'']
      | APP_UPDATE_DOWNLOADED \<Rightarrow> [''version'', ''releaseNotes'', ''releaseDate'']
      | APP_UPDATE_PROGRESS \<Rightarrow> [''percent'', ''bytesPerSecond'', ''transferred'', ''total'']
      | APP_UPDATE_ERROR \<Rightarrow> [''message'', ''stack''])"

fun wellformed_message :: "window \<times> channel \<times> js_obj \<Rightarrow> bool" where
  "wellformed_message (w, c, payload) = (map fst payload = channel_keys c)"

text \<open>
  The actions that call \<^verbatim>\<open>initializeAppUpdater\<close>, and those that call
  \<^verbatim>\<open>quitAndInstall\<close>.
\<close>

fun initializes :: "action \<Rightarrow> bool" where
  "initializes (CallInitialize w) = True"
| "initializes _ = False"

fun calls_quitAndInstall :: "action \<Rightarrow> bool" where
  "calls_quitAndInstall CallQuitAndInstall = True"
| "calls_quitAndInstall _ = False"

text \<open>
  The registered window, if there is one, is live; and the number of registered closures
  for the progress event.
\<close>

definition window_alive :: "world \<Rightarrow> bool" where
  "window_alive s = (case mainWindow s of None \<Rightarrow> True | Some w \<Rightarrow> w \<notin> set (destroyed s))"

definition progress_listeners :: "world \<Rightarrow> nat" where
  "progress_listeners s = length (filter (\<lambda>h. h = OnDownloadProgress) (listeners s))"

subsection \<open>Example worlds\<close>

text \<open>
  A build of version 1.2.0: the loaded module, the updater started on window 1, the
  world after the startup check has found 1.3.0 and the library has begun to download it,
  and the world after the download has finished. The responses are what the library can
  do during one check.
\<close>

definition example_error :: js_error where
  "example_error =
     \<lparr>message = ''net::ERR_INTERNET_DISCONNECTED'',
      stack = Some ''Error: net::ERR_INTERNET_DISCONNECTED at httpExecutor''\<rparr>"

definition release_120 :: update_info where
  "release_120 = \<lparr>version = ''1.2.0'', releaseNotes = JNull, releaseDate = ''2025-01-10''\<rparr>"

definition release_130 :: update_info where
  "release_130 =
     \<lparr>version = ''1.3.0'', releaseNotes = JString ''Fixes'', releaseDate = ''2025-02-20''\<rparr>"

definition release_140 :: update_info where
  "release_140 =
     \<lparr>version = ''1.4.0'', releaseNotes = JString ''More'', releaseDate = ''2025-03-30''\<rparr>"

definition example_tick :: progress_info where
  "example_tick = \<lparr>percent = 42, bytesPerSecond = 1000, transferred = 420, total' = 1000\<rparr>"

definition failing_check :: check_response where
  "failing_check = \<lparr>emitted = [CheckingForUpdate, ErrorEvent example_error],
                     settles = Throws example_error\<rparr>"

definition same_version_check :: check_response where
  "same_version_check = \<lparr>emitted = [CheckingForUpdate, UpdateNotAvailable release_120],
                          settles = Returns (Some release_120)\<rparr>"

definition found_130_check :: check_response where
  "found_130_check =
     \<lparr>emitted = [CheckingForUpdate, UpdateAvailable release_130, DownloadProgress example_tick],
      settles = Returns (Some release_130)\<rparr>"

definition found_140_check :: check_response where
  "found_140_check = \<lparr>emitted = [CheckingForUpdate, UpdateAvailable release_140],
                       settles = Returns (Some release_140)\<rparr>"

definition loaded :: world where
  "loaded = module_load (boot ''1.2.0'')"

definition started :: world where
  "started = initializeAppUpdater (Some 1) loaded"

definition downloading :: world where
  "downloading = run [TimerFires found_130_check] started"

definition downloaded :: world where
  "downloaded = run [LibraryEmits (UpdateDownloaded release_130)] downloading"

section \<open>Properties of the model\<close>

subsection \<open>What the handlers leave alone\<close>

lemma handler_frame_refl: "handler_frame s s"
  by (simp add: handler_frame_def)

lemma handler_frame_trans: "handler_frame s t \<Longrightarrow> handler_frame t u \<Longrightarrow> handler_frame s u"
  by (simp add: handler_frame_def)

lemma send_if_window_frame: "handler_frame s (snd (send_if_window c p s))"
  by (simp add: send_if_window_def webContents_send_def handler_frame_def split: option.splits)

lemma console_log_frame: "handler_frame s (console_log t vs s)"
  by (simp add: console_log_def handler_frame_def)

lemma console_error_frame: "handler_frame s (console_error t vs s)"
  by (simp add: console_error_def handler_frame_def)

lemma dispatch_frame: "handler_frame s (snd (dispatch h ev s))"
  by (cases "(h, ev, s)" rule: dispatch.cases)
     (auto simp: on_update_available_def on_update_downloaded_def on_download_progress_def
        on_error_def on_update_not_available_def on_checking_for_update_def
        handler_frame_refl
        intro: handler_frame_trans [OF console_log_frame send_if_window_frame]
          handler_frame_trans [OF console_error_frame send_if_window_frame] console_log_frame)

lemma run_listeners_frame: "handler_frame s (snd (run_listeners hs ev s))"
proof (induction hs arbitrary: s)
  case Nil
  show ?case by (simp add: handler_frame_refl)
next
  case (Cons h hs)
  obtain r s' where d: "dispatch h ev s = (r, s')" by (cases "dispatch h ev s")
  have f: "handler_frame s s'" using dispatch_frame [of s h ev] d by simp
  show ?case
  proof (cases r)
    case (Returns u)
    then show ?thesis using d f Cons.IH [of s'] by (auto intro: handler_frame_trans)
  next
    case (Throws e)
    then show ?thesis using d f by simp
  qed
qed

lemma emit_frame: "handler_frame s (snd (emit ev s))"
  by (simp add: emit_def run_listeners_frame)

lemma emit_all_frame: "handler_frame s (snd (emit_all evs s))"
proof (induction evs arbitrary: s)
  case Nil
  show ?case by (simp add: handler_frame_refl)
next
  case (Cons ev evs)
  obtain r s' where d: "emit ev s = (r, s')" by (cases "emit ev s")
  have f: "handler_frame s s'" using emit_frame [of s ev] d by simp
  show ?case
  proof (cases r)
    case (Returns u)
    then show ?thesis using d f Cons.IH [of s'] by (auto intro: handler_frame_trans)
  next
    case (Throws e)
    then show ?thesis using d f by simp
  qed
qed

subsection \<open>When the handlers return\<close>

lemmas handler_defs =
  on_update_available_def on_update_downloaded_def on_download_progress_def
  on_error_def on_update_not_available_def on_checking_for_update_def

lemma console_log_ipc: "ipc (console_log t vs s) = ipc s"
  by (simp add: console_log_def)

lemma console_error_ipc: "ipc (console_error t vs s) = ipc s"
  by (simp add: console_error_def)

lemma console_log_mainWindow: "mainWindow (console_log t vs s) = mainWindow s"
  by (simp add: console_log_def)

lemma console_error_mainWindow: "mainWindow (console_error t vs s) = mainWindow s"
  by (simp add: console_error_def)

lemma console_log_destroyed: "destroyed (console_log t vs s) = destroyed s"
  by (simp add: console_log_def)

lemma console_error_destroyed: "destroyed (console_error t vs s) = destroyed s"
  by (simp add: console_error_def)

lemma console_log_window_alive: "window_alive (console_log t vs s) = window_alive s"
  by (simp add: console_log_def window_alive_def split: option.splits)

lemma console_error_window_alive: "window_alive (console_error t vs s) = window_alive s"
  by (simp add: console_error_def window_alive_def split: option.splits)

lemmas console_simps =
  console_log_ipc console_error_ipc console_log_mainWindow console_error_mainWindow
  console_log_destroyed console_error_destroyed console_log_window_alive
  console_error_window_alive

lemma frame_window_alive: "handler_frame s s' \<Longrightarrow> window_alive s' = window_alive s"
  by (simp add: handler_frame_def window_alive_def split: option.splits)

lemma no_window_alive: "mainWindow s = None \<Longrightarrow> window_alive s"
  by (simp add: window_alive_def)

lemma send_if_window_returns: "window_alive s \<Longrightarrow> fst (send_if_window c p s) = Returns ()"
  by (auto simp: send_if_window_def webContents_send_def window_alive_def split: option.splits)

lemma send_if_window_ipc:
  "ipc (snd (send_if_window c p s)) =
     ipc s @
       (case mainWindow s of
          None \<Rightarrow> []
        | Some w \<Rightarrow> if w \<in> set (destroyed s) then [] else [(w, c, p)])"
  by (simp add: send_if_window_def webContents_send_def split: option.splits)

lemma send_if_window_destroyed:
  "mainWindow s = Some w \<Longrightarrow> w \<in> set (destroyed s) \<Longrightarrow>
   send_if_window c p s = (Throws object_destroyed, s)"
  by (simp add: send_if_window_def webContents_send_def)

lemma dispatch_returns: "window_alive s \<Longrightarrow> fst (dispatch h ev s) = Returns ()"
  by (cases "(h, ev, s)" rule: dispatch.cases)
     (simp_all add: handler_defs send_if_window_returns console_simps)

lemma dispatch_quiet_returns: "quiet_event ev \<Longrightarrow> fst (dispatch h ev s) = Returns ()"
  by (cases "(h, ev, s)" rule: dispatch.cases) (simp_all add: handler_defs)

lemma dispatch_mainWindow: "mainWindow (snd (dispatch h ev s)) = mainWindow s"
  using dispatch_frame [of s h ev] by (simp add: handler_frame_def)

lemma dispatch_window_alive: "window_alive (snd (dispatch h ev s)) = window_alive s"
  using dispatch_frame [of s h ev] by (rule frame_window_alive)

lemma emit_mainWindow: "mainWindow (snd (emit ev s)) = mainWindow s"
  using emit_frame [of s ev] by (simp add: handler_frame_def)

lemma emit_listeners: "listeners (snd (emit ev s)) = listeners s"
  using emit_frame [of s ev] by (simp add: handler_frame_def)

lemma emit_window_alive: "window_alive (snd (emit ev s)) = window_alive s"
  using emit_frame [of s ev] by (rule frame_window_alive)

text \<open>One step of an emission: the next listener runs only when this one has returned.\<close>

lemma run_listeners_step:
  "run_listeners (h # hs) ev s =
     (if fst (dispatch h ev s) = Returns () then run_listeners hs ev (snd (dispatch h ev s))
      else dispatch h ev s)"
proof -
  obtain x s' where d: "dispatch h ev s = (x, s')" by (cases "dispatch h ev s")
  show ?thesis using d by (cases x) simp_all
qed

lemma emit_all_step:
  "emit_all (ev # evs) s =
     (if fst (emit ev s) = Returns () then emit_all evs (snd (emit ev s)) else emit ev s)"
proof -
  obtain x s' where d: "emit ev s = (x, s')" by (cases "emit ev s")
  show ?thesis using d by (cases x) simp_all
qed

declare run_listeners.simps(2) [simp del]
declare emit_all.simps(2) [simp del]

lemma run_listeners_returns: "window_alive s \<Longrightarrow> fst (run_listeners hs ev s) = Returns ()"
proof (induction hs arbitrary: s)
  case Nil
  show ?case by simp
next
  case (Cons h hs)
  have "window_alive (snd (dispatch h ev s))"
    using Cons.prems by (simp add: dispatch_window_alive)
  then have "fst (run_listeners hs ev (snd (dispatch h ev s))) = Returns ()"
    by (rule Cons.IH)
  then show ?case using Cons.prems by (simp add: run_listeners_step dispatch_returns)
qed

lemma emit_returns: "window_alive s \<Longrightarrow> fst (emit ev s) = Returns ()"
  by (simp add: emit_def run_listeners_returns)

lemma emit_all_returns: "window_alive s \<Longrightarrow> fst (emit_all evs s) = Returns ()"
proof (induction evs arbitrary: s)
  case Nil
  show ?case by simp
next
  case (Cons ev evs)
  have "window_alive (snd (emit ev s))" using Cons.prems by (simp add: emit_window_alive)
  then have "fst (emit_all evs (snd (emit ev s))) = Returns ()" by (rule Cons.IH)
  then show ?case using Cons.prems by (simp add: emit_all_step emit_returns)
qed

lemma library_call_eq:
  "library_call c r s =
     (settles r, snd (emit_all (emitted r) (s\<lparr>updater_calls := updater_calls s @ [c]\<rparr>)))"
  by (simp add: library_call_def)

lemma library_call_settles: "fst (library_call c r s) = settles r"
  by (simp add: library_call_eq)

lemma library_call_frame:
  "handler_frame (s\<lparr>updater_calls := updater_calls s @ [c]\<rparr>) (snd (library_call c r s))"
  by (simp add: library_call_eq emit_all_frame)

lemma library_call_calls: "updater_calls (snd (library_call c r s)) = updater_calls s @ [c]"
  using library_call_frame [of s c r] by (simp add: handler_frame_def)

subsection \<open>Without a window nothing is sent\<close>

lemma dispatch_no_window: "mainWindow s = None \<Longrightarrow> ipc (snd (dispatch h ev s)) = ipc s"
  by (cases "(h, ev, s)" rule: dispatch.cases)
     (simp_all add: handler_defs send_if_window_ipc console_simps)

lemma run_listeners_no_window:
  "mainWindow s = None \<Longrightarrow> ipc (snd (run_listeners hs ev s)) = ipc s"
proof (induction hs arbitrary: s)
  case Nil
  show ?case by simp
next
  case (Cons h hs)
  have "mainWindow (snd (dispatch h ev s)) = None"
    using Cons.prems by (simp add: dispatch_mainWindow)
  then have "ipc (snd (run_listeners hs ev (snd (dispatch h ev s)))) = ipc (snd (dispatch h ev s))"
    by (rule Cons.IH)
  then show ?case using Cons.prems by (simp add: run_listeners_step dispatch_no_window)
qed

lemma emit_no_window: "mainWindow s = None \<Longrightarrow> ipc (snd (emit ev s)) = ipc s"
  by (simp add: emit_def run_listeners_no_window)

subsection \<open>Events that are only logged\<close>

lemma dispatch_quiet: "quiet_event ev \<Longrightarrow> ipc (snd (dispatch h ev s)) = ipc s"
  by (cases "(h, ev, s)" rule: dispatch.cases)
     (simp_all add: handler_defs console_simps)

lemma run_listeners_quiet: "quiet_event ev \<Longrightarrow> ipc (snd (run_listeners hs ev s)) = ipc s"
proof (induction hs arbitrary: s)
  case Nil
  show ?case by simp
next
  case (Cons h hs)
  have "ipc (snd (run_listeners hs ev (snd (dispatch h ev s)))) = ipc (snd (dispatch h ev s))"
    using Cons.prems by (rule Cons.IH)
  then show ?case using Cons.prems by (simp add: run_listeners_step dispatch_quiet)
qed

lemma emit_quiet: "quiet_event ev \<Longrightarrow> ipc (snd (emit ev s)) = ipc s"
  by (simp add: emit_def run_listeners_quiet)

lemma emit_all_quiet: "list_all quiet_event evs \<Longrightarrow> ipc (snd (emit_all evs s)) = ipc s"
proof (induction evs arbitrary: s)
  case Nil
  show ?case by simp
next
  case (Cons ev evs)
  have "ipc (snd (emit_all evs (snd (emit ev s)))) = ipc (snd (emit ev s))"
    using Cons.prems by (intro Cons.IH) simp
  then show ?case using Cons.prems by (simp add: emit_all_step emit_quiet)
qed

subsection \<open>Progress ticks\<close>

lemma dispatch_progress:
  "window_alive s \<Longrightarrow>
   ipc (snd (dispatch h (DownloadProgress p) s)) =
     ipc s @
       (case mainWindow s of
          None \<Rightarrow> []
        | Some w \<Rightarrow> if h = OnDownloadProgress then [progress_message w p] else [])"
  by (cases h)
     (auto simp: handler_defs send_if_window_ipc console_simps progress_message_def
        window_alive_def split: option.splits)

lemma run_listeners_progress:
  "window_alive s \<Longrightarrow>
   ipc (snd (run_listeners hs (DownloadProgress p) s)) =
     ipc s @
       (case mainWindow s of
          None \<Rightarrow> []
        | Some w \<Rightarrow>
            replicate (length (filter (\<lambda>h. h = OnDownloadProgress) hs)) (progress_message w p))"
proof (induction hs arbitrary: s)
  case Nil
  show ?case by (simp split: option.splits)
next
  case (Cons h hs)
  let ?s' = "snd (dispatch h (DownloadProgress p) s)"
  have a: "window_alive ?s'" using Cons.prems by (simp add: dispatch_window_alive)
  have m: "mainWindow ?s' = mainWindow s" by (simp add: dispatch_mainWindow)
  have "ipc (snd (run_listeners hs (DownloadProgress p) ?s')) =
      ipc ?s' @
        (case mainWindow ?s' of
           None \<Rightarrow> []
         | Some w \<Rightarrow>
             replicate (length (filter (\<lambda>h. h = OnDownloadProgress) hs)) (progress_message w p))"
    using a by (rule Cons.IH)
  then show ?case
    using Cons.prems m
    by (simp add: run_listeners_step dispatch_returns dispatch_progress split: option.splits)
qed

lemma emit_progress:
  "window_alive s \<Longrightarrow>
   ipc (snd (emit (DownloadProgress p) s)) =
     ipc s @
       (case mainWindow s of
          None \<Rightarrow> []
        | Some w \<Rightarrow> replicate (progress_listeners s) (progress_message w p))"
  by (simp add: emit_def run_listeners_progress progress_listeners_def cong: option.case_cong)

lemma emit_all_progress:
  "window_alive s \<Longrightarrow>
   ipc (snd (emit_all (map DownloadProgress ps) s)) =
     ipc s @
       (case mainWindow s of
          None \<Rightarrow> []
        | Some w \<Rightarrow>
            concat (map (\<lambda>p. replicate (progress_listeners s) (progress_message w p)) ps))"
proof (induction ps arbitrary: s)
  case Nil
  show ?case by (simp split: option.splits)
next
  case (Cons p ps)
  let ?s' = "snd (emit (DownloadProgress p) s)"
  have a: "window_alive ?s'" using Cons.prems by (simp add: emit_window_alive)
  have m: "mainWindow ?s' = mainWindow s" by (simp add: emit_mainWindow)
  have l: "progress_listeners ?s' = progress_listeners s"
    by (simp add: progress_listeners_def emit_listeners)
  have "ipc (snd (emit_all (map DownloadProgress ps) ?s')) =
      ipc ?s' @
        (case mainWindow ?s' of
           None \<Rightarrow> []
         | Some w \<Rightarrow>
             concat (map (\<lambda>p. replicate (progress_listeners ?s') (progress_message w p)) ps))"
    using a by (rule Cons.IH)
  then show ?case
    using Cons.prems m l
    by (simp add: emit_all_step emit_returns emit_progress split: option.splits)
qed

text \<open>On a destroyed window the handler throws at the send, after its log line.\<close>

lemma on_download_progress_destroyed:
  "mainWindow s = Some w \<Longrightarrow> w \<in> set (destroyed s) \<Longrightarrow>
   fst (on_download_progress p s) = Throws object_destroyed \<and>
   ipc (snd (on_download_progress p s)) = ipc s"
  by (simp add: on_download_progress_def send_if_window_destroyed console_simps)

subsection \<open>Timers\<close>

lemma autoUpdater_checkForUpdates_settles: "fst (autoUpdater_checkForUpdates r s) = settles r"
  by (simp add: autoUpdater_checkForUpdates_def library_call_settles)

lemma timer_body_eq:
  "timer_body cb r s =
     (Returns (),
      (case settles r of
         Throws e \<Rightarrow> console_error (timer_failure_text cb) [JErrorObj e]
       | Returns x \<Rightarrow> (\<lambda>s'. s'))
        (snd (autoUpdater_checkForUpdates r (console_log (timer_text cb) [] s))))"
proof -
  let ?s1 = "console_log (timer_text cb) [] s"
  obtain x s' where d: "autoUpdater_checkForUpdates r ?s1 = (x, s')"
    by (cases "autoUpdater_checkForUpdates r ?s1")
  then have "x = settles r" using autoUpdater_checkForUpdates_settles [of r ?s1] by simp
  then show ?thesis using d by (cases "settles r") (simp_all add: timer_body_def)
qed

lemma timer_body_returns: "fst (timer_body cb r s) = Returns ()"
  by (simp add: timer_body_eq)

lemma timer_body_frame:
  "handler_frame (s\<lparr>updater_calls := updater_calls s @ [CheckForUpdates]\<rparr>)
     (snd (timer_body cb r s))"
proof -
  let ?s1 = "console_log (timer_text cb) [] s"
  let ?s2 = "snd (autoUpdater_checkForUpdates r ?s1)"
  have a: "handler_frame (?s1\<lparr>updater_calls := updater_calls ?s1 @ [CheckForUpdates]\<rparr>) ?s2"
    by (simp add: autoUpdater_checkForUpdates_def library_call_frame)
  have b: "handler_frame (s\<lparr>updater_calls := updater_calls s @ [CheckForUpdates]\<rparr>)
      (?s1\<lparr>updater_calls := updater_calls ?s1 @ [CheckForUpdates]\<rparr>)"
    by (simp add: handler_frame_def console_log_def)
  have c: "handler_frame (s\<lparr>updater_calls := updater_calls s @ [CheckForUpdates]\<rparr>) ?s2"
    using b a by (rule handler_frame_trans)
  show ?thesis
  proof (cases "settles r")
    case (Returns x)
    then show ?thesis using c by (simp add: timer_body_eq)
  next
    case (Throws e)
    then show ?thesis
      using handler_frame_trans [OF c console_error_frame] by (simp add: timer_body_eq)
  qed
qed

lemma timer_body_calls:
  "updater_calls (snd (timer_body cb r s)) = updater_calls s @ [CheckForUpdates]"
  using timer_body_frame [of s cb r] by (simp add: handler_frame_def)

lemma fire_next_returns: "fst (fire_next r s) = Returns ()"
  by (simp add: fire_next_def Let_def timer_body_returns split: option.splits)

lemma next_due_less: "next_due ts = Some i \<Longrightarrow> i < length ts"
  by (induction ts arbitrary: i) (auto split: option.splits if_splits)

lemma update_due_intervals:
  "i < length ts \<Longrightarrow> repeating (ts ! i) \<Longrightarrow>
   map armed (filter repeating (ts[i := (ts ! i)\<lparr>due := x\<rparr>])) = map armed (filter repeating ts)"
proof (induction ts arbitrary: i)
  case Nil
  then show ?case by simp
next
  case (Cons t ts)
  then show ?case by (cases i) (simp_all add: armed_def)
qed

lemma remove_oneshot_intervals:
  assumes "i < length ts" and "\<not> repeating (ts ! i)"
  shows "filter repeating (take i ts @ drop (Suc i) ts) = filter repeating ts"
proof -
  have "ts = take i ts @ ts ! i # drop (Suc i) ts"
    using assms(1) by (rule id_take_nth_drop)
  then have "filter repeating ts = filter repeating (take i ts @ ts ! i # drop (Suc i) ts)"
    by simp
  also have "\<dots> = filter repeating (take i ts @ drop (Suc i) ts)"
    using assms(2) by simp
  finally show ?thesis by simp
qed

lemma rearm_intervals:
  "i < length ts \<Longrightarrow> map armed (filter repeating (rearm i ts)) = map armed (filter repeating ts)"
proof (cases "repeating (ts ! i)")
  case True
  assume "i < length ts"
  then show ?thesis using True by (simp add: rearm_def update_due_intervals)
next
  case False
  assume "i < length ts"
  then have "filter repeating (take i ts @ drop (Suc i) ts) = filter repeating ts"
    using False by (rule remove_oneshot_intervals)
  then show ?thesis using False by (simp only: rearm_def if_False)
qed

lemma fire_next_intervals: "intervals (snd (fire_next r s)) = intervals s"
proof (cases "next_due (timers s)")
  case None
  then show ?thesis by (simp add: fire_next_def)
next
  case (Some i)
  let ?t = "timers s ! i"
  let ?s1 = "s\<lparr>now := max (now s) (due ?t), timers := rearm i (timers s),
       fired := fired s @ [(max (now s) (due ?t), callback ?t)]\<rparr>"
  have "timers (snd (timer_body (callback ?t) r ?s1)) = rearm i (timers s)"
    using timer_body_frame [of ?s1 "callback ?t" r] by (simp add: handler_frame_def)
  then show ?thesis
    using Some next_due_less [OF Some]
    by (simp add: fire_next_def Let_def intervals_def rearm_intervals)
qed

lemma FOUR_HOURS_ms: "FOUR_HOURS = 14400000"
  by (simp add: FOUR_HOURS_def)

lemmas init_defs =
  initializeAppUpdater_def console_log_def setInterval_def setTimeout_def
  register_handlers_def log_configuration_def

lemma initializeAppUpdater_timers:
  "timers (initializeAppUpdater w s) =
     timers s @ [startup_timer (now s), poll_timer (now s + 14400000)]"
  by (simp add: init_defs FOUR_HOURS_ms startup_timer_def poll_timer_def)

lemma initializeAppUpdater_listeners:
  "listeners (initializeAppUpdater w s) =
     listeners s @ [OnUpdateAvailable, OnUpdateDownloaded, OnDownloadProgress, OnError,
       OnUpdateNotAvailable, OnCheckingForUpdate]"
  by (simp add: init_defs)

lemma initializeAppUpdater_others:
  "mainWindow (initializeAppUpdater w s) = w"
  "now (initializeAppUpdater w s) = now s"
  "fired (initializeAppUpdater w s) = fired s"
  "ipc (initializeAppUpdater w s) = ipc s"
  "updater_calls (initializeAppUpdater w s) = updater_calls s"
  "autoDownload (initializeAppUpdater w s) = autoDownload s"
  "autoInstallOnAppQuit (initializeAppUpdater w s) = autoInstallOnAppQuit s"
  "currentVersion (initializeAppUpdater w s) = currentVersion s"
  by (simp_all add: init_defs)

text \<open>Once the startup timer has fired, only the poll timer is armed.\<close>

lemma fire_next_poll:
  assumes "timers s = [poll_timer d]" and "now s \<le> d"
  shows "timers (snd (fire_next r s)) = [poll_timer (d + 14400000)]"
    and "now (snd (fire_next r s)) = d"
    and "fired (snd (fire_next r s)) = fired s @ [(d, PeriodicCheck)]"
    and "updater_calls (snd (fire_next r s)) = updater_calls s @ [CheckForUpdates]"
proof -
  let ?s1 = "s\<lparr>now := d, timers := [poll_timer (d + 14400000)],
       fired := fired s @ [(d, PeriodicCheck)]\<rparr>"
  have e: "fire_next r s = timer_body PeriodicCheck r ?s1"
    using assms by (simp add: fire_next_def Let_def rearm_def poll_timer_def max_def)
  have f: "handler_frame (?s1\<lparr>updater_calls := updater_calls ?s1 @ [CheckForUpdates]\<rparr>)
      (snd (timer_body PeriodicCheck r ?s1))"
    by (rule timer_body_frame)
  show "timers (snd (fire_next r s)) = [poll_timer (d + 14400000)]"
    and "now (snd (fire_next r s)) = d"
    and "fired (snd (fire_next r s)) = fired s @ [(d, PeriodicCheck)]"
    and "updater_calls (snd (fire_next r s)) = updater_calls s @ [CheckForUpdates]"
    using f by (simp_all add: e handler_frame_def)
qed

lemma run_timers_poll:
  assumes "timers s = [poll_timer d]" and "now s \<le> d"
  shows "fired (run_timers rs s) =
           fired s @ map (\<lambda>k. (d + k * 14400000, PeriodicCheck)) [0..<length rs] \<and>
         updater_calls (run_timers rs s) =
           updater_calls s @ replicate (length rs) CheckForUpdates \<and>
         timers (run_timers rs s) = [poll_timer (d + length rs * 14400000)]"
  using assms
proof (induction rs arbitrary: s d)
  case Nil
  then show ?case by simp
next
  case (Cons r rs)
  let ?s' = "snd (fire_next r s)"
  have t: "timers ?s' = [poll_timer (d + 14400000)]" and n: "now ?s' \<le> d + 14400000"
    using fire_next_poll [OF Cons.prems, of r] by simp_all
  have ih: "fired (run_timers rs ?s') =
           fired ?s' @ map (\<lambda>k. (d + 14400000 + k * 14400000, PeriodicCheck)) [0..<length rs] \<and>
         updater_calls (run_timers rs ?s') =
           updater_calls ?s' @ replicate (length rs) CheckForUpdates \<and>
         timers (run_timers rs ?s') = [poll_timer (d + 14400000 + length rs * 14400000)]"
    using t n by (rule Cons.IH)
  show ?case
    using ih fire_next_poll [OF Cons.prems, of r]
    by (simp add: map_upt_Suc replicate_app_Cons_same add.assoc del: upt_Suc)
qed

text \<open>The first firing after an initialisation on an empty queue.\<close>

lemma fire_next_startup:
  assumes "timers s = [startup_timer t0, poll_timer (t0 + 14400000)]" and "now s \<le> t0 + 3000"
  shows "timers (snd (fire_next r s)) = [poll_timer (t0 + 14400000)]"
    and "now (snd (fire_next r s)) = t0 + 3000"
    and "fired (snd (fire_next r s)) = fired s @ [(t0 + 3000, InitialCheck)]"
    and "updater_calls (snd (fire_next r s)) = updater_calls s @ [CheckForUpdates]"
proof -
  let ?s1 = "s\<lparr>now := t0 + 3000, timers := [poll_timer (t0 + 14400000)],
       fired := fired s @ [(t0 + 3000, InitialCheck)]\<rparr>"
  have e: "fire_next r s = timer_body InitialCheck r ?s1"
    using assms
    by (simp add: fire_next_def Let_def rearm_def poll_timer_def startup_timer_def max_def)
  have f: "handler_frame (?s1\<lparr>updater_calls := updater_calls ?s1 @ [CheckForUpdates]\<rparr>)
      (snd (timer_body InitialCheck r ?s1))"
    by (rule timer_body_frame)
  show "timers (snd (fire_next r s)) = [poll_timer (t0 + 14400000)]"
    and "now (snd (fire_next r s)) = t0 + 3000"
    and "fired (snd (fire_next r s)) = fired s @ [(t0 + 3000, InitialCheck)]"
    and "updater_calls (snd (fire_next r s)) = updater_calls s @ [CheckForUpdates]"
    using f by (simp_all add: e handler_frame_def)
qed

lemma schedule_0: "schedule t0 0 = []"
  by (simp add: schedule_def)

lemma schedule_Suc:
  "schedule t0 (Suc n) =
     (t0 + 3000, InitialCheck) #
       map (\<lambda>k. (t0 + 14400000 + k * 14400000, PeriodicCheck)) [0..<n]"
proof -
  have "take n (map (\<lambda>k. (t0 + Suc k * 14400000, PeriodicCheck)) [0..<Suc n]) =
        map (\<lambda>k. (t0 + Suc k * 14400000, PeriodicCheck)) [0..<n]"
    by (simp add: take_map del: upt_Suc)
  then show ?thesis by (simp add: schedule_def add.assoc del: upt_Suc)
qed

lemma run_timers_initialized:
  assumes "timers s = []"
  shows "fired (run_timers rs (initializeAppUpdater w s)) = fired s @ schedule (now s) (length rs) \<and>
         updater_calls (run_timers rs (initializeAppUpdater w s)) =
           updater_calls s @ replicate (length rs) CheckForUpdates"
proof (cases rs)
  case Nil
  then show ?thesis by (simp add: schedule_0 initializeAppUpdater_others)
next
  case (Cons r rs')
  let ?i = "initializeAppUpdater w s"
  let ?s' = "snd (fire_next r ?i)"
  have t: "timers ?i = [startup_timer (now s), poll_timer (now s + 14400000)]"
    using assms by (simp add: initializeAppUpdater_timers)
  have n: "now ?i \<le> now s + 3000" by (simp add: initializeAppUpdater_others)
  note first = fire_next_startup [OF t n, of r]
  have "now ?s' \<le> now s + 14400000" using first(2) by simp
  note rest = run_timers_poll [OF first(1) this, of rs']
  show ?thesis
    using Cons rest first
    by (simp add: schedule_Suc initializeAppUpdater_others replicate_app_Cons_same del: upt_Suc)
qed

subsection \<open>The manual commands\<close>

lemma checkForUpdates_eq:
  "checkForUpdates r s =
     (let s' = snd (autoUpdater_checkForUpdates r
                 (console_log ''[app-updater] Manual update check requested'' [] s))
      in case settles r of
           Throws e \<Rightarrow>
             (Throws e,
              console_error ''[app-updater] Manual update check failed:'' [JErrorObj e] s')
         | Returns None \<Rightarrow> (Returns None, s')
         | Returns (Some info) \<Rightarrow>
             (if version info \<noteq> currentVersion s' then (Returns (Some (info_payload info)), s')
              else (Returns None, s')))"
proof -
  let ?s1 = "console_log ''[app-updater] Manual update check requested'' [] s"
  obtain x s' where d: "autoUpdater_checkForUpdates r ?s1 = (x, s')"
    by (cases "autoUpdater_checkForUpdates r ?s1")
  then have "x = settles r" using autoUpdater_checkForUpdates_settles [of r ?s1] by simp
  then show ?thesis using d
    by (simp add: checkForUpdates_def Let_def split: outcome.splits option.splits)
qed

lemma checkForUpdates_frame:
  "handler_frame (s\<lparr>updater_calls := updater_calls s @ [CheckForUpdates]\<rparr>)
     (snd (checkForUpdates r s))"
proof -
  let ?s1 = "console_log ''[app-updater] Manual update check requested'' [] s"
  let ?s2 = "snd (autoUpdater_checkForUpdates r ?s1)"
  have a: "handler_frame (?s1\<lparr>updater_calls := updater_calls ?s1 @ [CheckForUpdates]\<rparr>) ?s2"
    by (simp add: autoUpdater_checkForUpdates_def library_call_frame)
  have b: "handler_frame (s\<lparr>updater_calls := updater_calls s @ [CheckForUpdates]\<rparr>)
      (?s1\<lparr>updater_calls := updater_calls ?s1 @ [CheckForUpdates]\<rparr>)"
    by (simp add: handler_frame_def console_log_def)
  have c: "handler_frame (s\<lparr>updater_calls := updater_calls s @ [CheckForUpdates]\<rparr>) ?s2"
    using b a by (rule handler_frame_trans)
  show ?thesis
    using c handler_frame_trans [OF c console_error_frame]
    by (simp add: checkForUpdates_eq Let_def split: outcome.splits option.splits)
qed

lemma checkForUpdates_ipc:
  "ipc (snd (checkForUpdates r s)) =
     ipc (snd (emit_all (emitted r)
       (console_log ''[app-updater] Manual update check requested'' [] s
          \<lparr>updater_calls := updater_calls s @ [CheckForUpdates]\<rparr>)))"
  by (simp add: checkForUpdates_eq Let_def autoUpdater_checkForUpdates_def library_call_eq
      console_simps console_log_def split: outcome.splits option.splits)

lemma autoUpdater_downloadUpdate_settles: "fst (autoUpdater_downloadUpdate r s) = settles r"
  by (simp add: autoUpdater_downloadUpdate_def library_call_settles)

lemma downloadUpdate_eq:
  "downloadUpdate r s =
     (let s' = snd (autoUpdater_downloadUpdate r
                 (console_log ''[app-updater] Manual update download requested'' [] s))
      in case settles r of
           Throws e \<Rightarrow>
             (Throws e,
              console_error ''[app-updater] Manual update download failed:'' [JErrorObj e] s')
         | Returns x \<Rightarrow> (Returns (), s'))"
proof -
  let ?s1 = "console_log ''[app-updater] Manual update download requested'' [] s"
  obtain x s' where d: "autoUpdater_downloadUpdate r ?s1 = (x, s')"
    by (cases "autoUpdater_downloadUpdate r ?s1")
  then have "x = settles r" using autoUpdater_downloadUpdate_settles [of r ?s1] by simp
  then show ?thesis using d
    by (simp add: downloadUpdate_def Let_def split: outcome.splits)
qed

lemma downloadUpdate_frame:
  "handler_frame (s\<lparr>updater_calls := updater_calls s @ [DownloadUpdate]\<rparr>)
     (snd (downloadUpdate r s))"
proof -
  let ?s1 = "console_log ''[app-updater] Manual update download requested'' [] s"
  let ?s2 = "snd (autoUpdater_downloadUpdate r ?s1)"
  have a: "handler_frame (?s1\<lparr>updater_calls := updater_calls ?s1 @ [DownloadUpdate]\<rparr>) ?s2"
    by (simp add: autoUpdater_downloadUpdate_def library_call_frame)
  have b: "handler_frame (s\<lparr>updater_calls := updater_calls s @ [DownloadUpdate]\<rparr>)
      (?s1\<lparr>updater_calls := updater_calls ?s1 @ [DownloadUpdate]\<rparr>)"
    by (simp add: handler_frame_def console_log_def)
  have c: "handler_frame (s\<lparr>updater_calls := updater_calls s @ [DownloadUpdate]\<rparr>) ?s2"
    using b a by (rule handler_frame_trans)
  show ?thesis
    using c handler_frame_trans [OF c console_error_frame]
    by (simp add: downloadUpdate_eq Let_def split: outcome.splits)
qed

subsection \<open>The configuration is never changed\<close>

lemma fire_next_flags:
  "autoDownload (snd (fire_next r s)) = autoDownload s \<and>
   autoInstallOnAppQuit (snd (fire_next r s)) = autoInstallOnAppQuit s"
proof (cases "next_due (timers s)")
  case None
  then show ?thesis by (simp add: fire_next_def)
next
  case (Some i)
  let ?t = "timers s ! i"
  let ?s1 = "s\<lparr>now := max (now s) (due ?t), timers := rearm i (timers s),
       fired := fired s @ [(max (now s) (due ?t), callback ?t)]\<rparr>"
  show ?thesis
    using Some timer_body_frame [of ?s1 "callback ?t" r]
    by (simp add: fire_next_def Let_def handler_frame_def)
qed

lemma perform_flags:
  "autoDownload (perform a s) = autoDownload s \<and>
   autoInstallOnAppQuit (perform a s) = autoInstallOnAppQuit s"
proof (cases a)
  case (CallInitialize w)
  then show ?thesis by (simp add: initializeAppUpdater_others)
next
  case (CallCheckForUpdates r)
  then show ?thesis using checkForUpdates_frame [of s r] by (simp add: handler_frame_def)
next
  case (CallDownloadUpdate r)
  then show ?thesis using downloadUpdate_frame [of s r] by (simp add: handler_frame_def)
next
  case CallQuitAndInstall
  then show ?thesis by (simp add: quitAndInstall_def Let_def console_log_def)
next
  case CallGetCurrentVersion
  then show ?thesis by simp
next
  case (TimerFires r)
  then show ?thesis by (simp add: fire_next_flags)
next
  case (LibraryEmits ev)
  then show ?thesis using emit_frame [of s ev] by (simp add: handler_frame_def)
next
  case (WindowDestroyed w)
  then show ?thesis by simp
qed

lemma run_flags:
  "autoDownload (run as s) = autoDownload s \<and>
   autoInstallOnAppQuit (run as s) = autoInstallOnAppQuit s"
  by (induction as arbitrary: s) (simp_all add: perform_flags)

subsection \<open>Every message sent has the properties of its channel\<close>

lemma payload_keys:
  "map fst (info_payload info) = [''version'', ''releaseNotes'', ''releaseDate'']"
  "map fst (progress_payload p) = [''percent'', ''bytesPerSecond'', ''transferred'', ''total'']"
  "map fst (error_payload e) = [''message'', ''stack'']"
  by (simp_all add: info_payload_def progress_payload_def error_payload_def)

lemma dispatch_wellformed:
  "list_all wellformed_message (ipc s) \<Longrightarrow>
   list_all wellformed_message (ipc (snd (dispatch h ev s)))"
  by (cases "(h, ev, s)" rule: dispatch.cases)
     (simp_all add: handler_defs send_if_window_ipc console_simps payload_keys channel_keys_def
        split: option.splits)

lemma run_listeners_wellformed:
  "list_all wellformed_message (ipc s) \<Longrightarrow>
   list_all wellformed_message (ipc (snd (run_listeners hs ev s)))"
  by (induction hs arbitrary: s) (simp_all add: run_listeners_step dispatch_wellformed)

lemma emit_wellformed:
  "list_all wellformed_message (ipc s) \<Longrightarrow> list_all wellformed_message (ipc (snd (emit ev s)))"
  by (simp add: emit_def run_listeners_wellformed)

lemma emit_all_wellformed:
  "list_all wellformed_message (ipc s) \<Longrightarrow>
   list_all wellformed_message (ipc (snd (emit_all evs s)))"
  by (induction evs arbitrary: s) (simp_all add: emit_all_step emit_wellformed)

lemma library_call_wellformed:
  "list_all wellformed_message (ipc s) \<Longrightarrow>
   list_all wellformed_message (ipc (snd (library_call c r s)))"
  by (simp add: library_call_eq emit_all_wellformed)

lemma checkForUpdates_wellformed:
  "list_all wellformed_message (ipc s) \<Longrightarrow>
   list_all wellformed_message (ipc (snd (checkForUpdates r s)))"
  by (simp add: checkForUpdates_ipc emit_all_wellformed console_simps)

lemma downloadUpdate_wellformed:
  assumes "list_all wellformed_message (ipc s)"
  shows "list_all wellformed_message (ipc (snd (downloadUpdate r s)))"
proof -
  let ?s1 = "console_log ''[app-updater] Manual update download requested'' [] s"
  have "list_all wellformed_message (ipc (snd (library_call DownloadUpdate r ?s1)))"
    using assms by (intro library_call_wellformed) (simp add: console_simps)
  then show ?thesis
    by (simp add: downloadUpdate_eq Let_def autoUpdater_downloadUpdate_def console_simps
        split: outcome.splits)
qed

lemma timer_body_wellformed:
  assumes "list_all wellformed_message (ipc s)"
  shows "list_all wellformed_message (ipc (snd (timer_body cb r s)))"
proof -
  let ?s1 = "console_log (timer_text cb) [] s"
  have "list_all wellformed_message (ipc (snd (library_call CheckForUpdates r ?s1)))"
    using assms by (intro library_call_wellformed) (simp add: console_simps)
  then show ?thesis
    by (simp add: timer_body_eq autoUpdater_checkForUpdates_def console_simps
        split: outcome.splits)
qed

lemma fire_next_wellformed:
  "list_all wellformed_message (ipc s) \<Longrightarrow>
   list_all wellformed_message (ipc (snd (fire_next r s)))"
  by (simp add: fire_next_def Let_def timer_body_wellformed split: option.splits)

lemma perform_wellformed:
  "list_all wellformed_message (ipc s) \<Longrightarrow> list_all wellformed_message (ipc (perform a s))"
  by (cases a)
     (simp_all add: initializeAppUpdater_others checkForUpdates_wellformed
        downloadUpdate_wellformed fire_next_wellformed emit_wellformed
        quitAndInstall_def Let_def console_log_def)

lemma run_wellformed:
  "list_all wellformed_message (ipc s) \<Longrightarrow> list_all wellformed_message (ipc (run as s))"
  by (induction as arbitrary: s) (simp_all add: perform_wellformed)

lemmas model_defs =
  run_listeners.simps(2) emit_all.simps(2) boot_def module_load_def init_defs FOUR_HOURS_def handler_defs emit_def
  send_if_window_def webContents_send_def console_error_def
  library_call_def autoUpdater_checkForUpdates_def autoUpdater_downloadUpdate_def
  timer_body_def timer_text_def timer_failure_text_def fire_next_def rearm_def
  checkForUpdates_def downloadUpdate_def quitAndInstall_def
  info_payload_def progress_payload_def error_payload_def js_opt_string_def

lemmas example_defs =
  example_error_def release_120_def release_130_def release_140_def example_tick_def
  failing_check_def same_version_check_def found_130_check_def found_140_check_def
  loaded_def started_def downloading_def downloaded_def

subsection \<open>The example worlds\<close>

lemma started_value:
  "started =
     \<lparr>autoDownload = True, autoInstallOnAppQuit = True, currentVersion = ''1.2.0'',
      mainWindow = Some 1,
      listeners = [OnUpdateAvailable, OnUpdateDownloaded, OnDownloadProgress, OnError,
        OnUpdateNotAvailable, OnCheckingForUpdate],
      timers = [startup_timer 0, poll_timer 14400000],
      now = 0, fired = [],
      console =
        [\<lparr>level = Log, text_of = ''[app-updater] Initializing app auto-updater'', args = []\<rparr>,
         \<lparr>level = Log, text_of = ''[app-updater] Current version:'', args = [JString ''1.2.0'']\<rparr>,
         \<lparr>level = Log, text_of = ''[app-updater] Auto-download enabled:'', args = [JBool True]\<rparr>,
         \<lparr>level = Log, text_of = ''[app-updater] Auto-updater initialized successfully'',
          args = []\<rparr>],
      ipc = [], updater_calls = [], destroyed = []\<rparr>"
  by (simp add: started_def loaded_def boot_def module_load_def init_defs FOUR_HOURS_def
      startup_timer_def poll_timer_def)

lemma downloading_facts:
  "mainWindow downloading = Some 1"
  "updater_calls downloading = [CheckForUpdates]"
  "fired downloading = [(3000, InitialCheck)]"
  "timers downloading = [poll_timer 14400000]"
  "ipc downloading =
     [(1, APP_UPDATE_AVAILABLE, info_payload release_130),
      (1, APP_UPDATE_PROGRESS, progress_payload example_tick)]"
  "destroyed downloading = []"
  "progress_listeners downloading = 1"
  by (simp_all add: downloading_def started_value found_130_check_def model_defs
      startup_timer_def poll_timer_def Let_def progress_listeners_def)

section \<open>The claims\<close>

subsection \<open>C1: the arguments of the install call\<close>

text \<open>
  Claim C1 as amended. \<^verbatim>\<open>quitAndInstall\<close> looks at no state: in every world it
  calls the installer once, with \<^verbatim>\<open>isSilent = false\<close> and
  \<^verbatim>\<open>isForceRunAfter = true\<close>: an install that is not silent, with a relaunch
  afterwards.
\<close>

theorem quitAndInstall_arguments:
  "updater_calls (quitAndInstall s) = updater_calls s @ [QuitAndInstall False True]"
  by (simp add: quitAndInstall_def Let_def console_log_def)

text \<open>
  C1 as stated asks for a silent install. In the world where the download of 1.3.0 has
  finished, the call made is \<^verbatim>\<open>quitAndInstall(false, true)\<close>, not the silent one.
\<close>

theorem quitAndInstall_not_silent:
  "updater_calls downloaded = [CheckForUpdates] \<and>
   updater_calls (quitAndInstall downloaded) = [CheckForUpdates, QuitAndInstall False True] \<and>
   updater_calls (quitAndInstall downloaded) \<noteq> updater_calls downloaded @ [QuitAndInstall True True]"
proof -
  have "updater_calls downloaded = [CheckForUpdates]"
    using emit_frame [of downloading "UpdateDownloaded release_130"]
    by (simp add: downloaded_def handler_frame_def downloading_facts)
  then show ?thesis by (simp add: quitAndInstall_def Let_def console_log_def)
qed

subsection \<open>C2: the payload of the error event\<close>

text \<open>
  Claim C2 as amended. The error handler sends, when a window is registered and live,
  one message on the error channel whose payload has the properties
  \<^verbatim>\<open>message\<close> and \<^verbatim>\<open>stack\<close>, copied from the error (the stack is undefined
  when the error has none), and sends nothing otherwise; and in every run of the loaded
  module every message sent has exactly the properties of its channel, so no error
  message carries anything else.
\<close>

theorem update_error_payload:
  "ipc (snd (on_error e s)) =
     ipc s @
       (case mainWindow s of
          None \<Rightarrow> []
        | Some w \<Rightarrow>
            if w \<in> set (destroyed s) then []
            else
              [(w, APP_UPDATE_ERROR,
                [(''message'', JString (message e)),
                 (''stack'', (case stack e of None \<Rightarrow> JUndefined | Some t \<Rightarrow> JString t))])]) \<and>
   list_all wellformed_message (ipc (run as (module_load (boot v))))"
proof -
  have "list_all wellformed_message (ipc (module_load (boot v)))"
    by (simp add: module_load_def boot_def)
  then have "list_all wellformed_message (ipc (run as (module_load (boot v))))"
    by (rule run_wellformed)
  then show ?thesis
    by (simp add: on_error_def send_if_window_ipc console_simps error_payload_def
        js_opt_string_def cong: option.case_cong)
qed

text \<open>
  C2 as stated names the second property \<^verbatim>\<open>cause\<close>. The message sent for a
  network error on the started updater has the properties \<^verbatim>\<open>message\<close> and
  \<^verbatim>\<open>stack\<close>, and no property \<^verbatim>\<open>cause\<close>.
\<close>

theorem update_error_payload_has_no_cause:
  "ipc (snd (emit (ErrorEvent example_error) started)) =
     [(1, APP_UPDATE_ERROR,
       [(''message'', JString ''net::ERR_INTERNET_DISCONNECTED''),
        (''stack'', JString ''Error: net::ERR_INTERNET_DISCONNECTED at httpExecutor'')])] \<and>
   map fst (snd (snd (last (ipc (snd (emit (ErrorEvent example_error) started)))))) \<noteq>
     [''message'', ''cause''] \<and>
   map_of (snd (snd (last (ipc (snd (emit (ErrorEvent example_error) started)))))) ''cause'' = None"
  by (simp add: started_value example_error_def model_defs)

subsection \<open>C3: a failing check on the two paths\<close>

text \<open>
  Claim C3. When the check fails with an error, a timer closure returns normally, so does
  the firing of the next due timer, and every repeating timer is still armed afterwards
  with its delay: after an initialisation on an empty queue, \<open>n\<close> failing checks in a
  row are \<open>n\<close> firings, at 3 seconds and then every 4 hours. The manual
  \<^verbatim>\<open>checkForUpdates\<close> throws the same error to its caller.
\<close>

theorem failed_check_propagation:
  assumes "settles r = Throws e" and "timers s0 = []"
  shows "fst (timer_body cb r s) = Returns () \<and>
         fst (fire_next r s) = Returns () \<and>
         intervals (snd (fire_next r s)) = intervals s \<and>
         fired (run_timers (replicate n r) (initializeAppUpdater w s0)) =
           fired s0 @ schedule (now s0) n \<and>
         fst (checkForUpdates r s) = Throws e"
  using assms(1) run_timers_initialized [OF assms(2), of "replicate n r" w]
  by (simp add: timer_body_returns fire_next_returns fire_next_intervals checkForUpdates_eq Let_def)

theorem failed_check_propagation_witness:
  "settles failing_check = Throws example_error \<and>
   timers loaded = [] \<and>
   fst (timer_body PeriodicCheck failing_check started) = Returns () \<and>
   fst (fire_next failing_check started) = Returns () \<and>
   intervals (snd (fire_next failing_check started)) = [(14400000, PeriodicCheck)] \<and>
   fired (run_timers [failing_check, failing_check, failing_check] started) =
     [(3000, InitialCheck), (14400000, PeriodicCheck), (28800000, PeriodicCheck)] \<and>
   fst (checkForUpdates failing_check started) = Throws example_error"
proof -
  have h: "settles failing_check = Throws example_error" by (simp add: failing_check_def)
  have t: "timers loaded = []" "now loaded = 0" "fired loaded = []"
    by (simp_all add: loaded_def module_load_def boot_def)
  have i: "intervals started = [(14400000, PeriodicCheck)]"
    by (simp add: intervals_def started_value startup_timer_def poll_timer_def armed_def)
  show ?thesis
    using h t i
      failed_check_propagation [OF h t(1), of PeriodicCheck started "Suc (Suc (Suc 0))" "Some 1"]
    by (simp add: started_def schedule_def)
qed

subsection \<open>C4: a second initialisation\<close>

text \<open>
  Claim C4 as amended. \<^verbatim>\<open>initializeAppUpdater\<close> has no guard: every call arms one
  more one-shot timer of 3 seconds and one more repeating timer of 4 hours, and keeps the
  timers armed before.
\<close>

theorem initialize_stacks_timers:
  "timeouts (initializeAppUpdater w s) = timeouts s @ [(3000, InitialCheck)] \<and>
   intervals (initializeAppUpdater w s) = intervals s @ [(14400000, PeriodicCheck)]"
  by (simp add: timeouts_def intervals_def initializeAppUpdater_timers startup_timer_def
      poll_timer_def armed_def)

text \<open>
  C4 as stated: one timer of each kind after a second call. After two calls on the loaded
  module two one-shot timers and two repeating timers are armed.
\<close>

theorem second_initialize_duplicates_timers:
  "timeouts (initializeAppUpdater (Some 1) (initializeAppUpdater (Some 1) loaded)) =
     [(3000, InitialCheck), (3000, InitialCheck)] \<and>
   intervals (initializeAppUpdater (Some 1) (initializeAppUpdater (Some 1) loaded)) =
     [(14400000, PeriodicCheck), (14400000, PeriodicCheck)] \<and>
   length (timeouts (initializeAppUpdater (Some 1) (initializeAppUpdater (Some 1) loaded))) \<noteq> 1 \<and>
   length (intervals (initializeAppUpdater (Some 1) (initializeAppUpdater (Some 1) loaded))) \<noteq> 1"
  by (simp add: timeouts_def intervals_def initializeAppUpdater_timers startup_timer_def
      poll_timer_def armed_def loaded_def module_load_def boot_def)

subsection \<open>C5: the timers of one initialisation\<close>

text \<open>
  Claim C5. On a world with no timer armed, \<^verbatim>\<open>initializeAppUpdater\<close> arms exactly
  a one-shot timer of 3000 ms and a repeating timer of 4 * 60 * 60 * 1000 ms; each of
  their closures asks the library for one update check; and the host fires them at 3
  seconds after the start, once, and then at every multiple of 4 hours after the start,
  one check per firing, whatever the checks answer.
\<close>

theorem initialize_arms_timers:
  assumes "timers s = []"
  shows "timers (initializeAppUpdater w s) =
           [\<lparr>repeating = False, delay = 3000, due = now s + 3000, callback = InitialCheck\<rparr>,
            \<lparr>repeating = True, delay = 4 * 60 * 60 * 1000, due = now s + 4 * 60 * 60 * 1000,
             callback = PeriodicCheck\<rparr>] \<and>
         updater_calls (snd (timer_body cb r s')) = updater_calls s' @ [CheckForUpdates] \<and>
         fired (run_timers rs (initializeAppUpdater w s)) =
           fired s @ schedule (now s) (length rs) \<and>
         updater_calls (run_timers rs (initializeAppUpdater w s)) =
           updater_calls s @ replicate (length rs) CheckForUpdates"
  using assms run_timers_initialized [OF assms, of rs w]
  by (simp add: initializeAppUpdater_timers startup_timer_def poll_timer_def timer_body_calls)

theorem initialize_arms_timers_witness:
  "timers loaded = [] \<and>
   timers started =
     [\<lparr>repeating = False, delay = 3000, due = 3000, callback = InitialCheck\<rparr>,
      \<lparr>repeating = True, delay = 14400000, due = 14400000, callback = PeriodicCheck\<rparr>] \<and>
   fired (run_timers [failing_check, same_version_check, found_130_check, failing_check] started) =
     [(3000, InitialCheck), (14400000, PeriodicCheck), (28800000, PeriodicCheck),
      (43200000, PeriodicCheck)] \<and>
   updater_calls
     (run_timers [failing_check, same_version_check, found_130_check, failing_check] started) =
     [CheckForUpdates, CheckForUpdates, CheckForUpdates, CheckForUpdates]"
proof -
  have h: "timers loaded = []" by (simp add: loaded_def module_load_def boot_def)
  have n: "now loaded = 0" "fired loaded = []" "updater_calls loaded = []"
    by (simp_all add: loaded_def module_load_def boot_def)
  show ?thesis
    using h n
      initialize_arms_timers [OF h, of "Some 1" PeriodicCheck failing_check loaded
        "[failing_check, same_version_check, found_130_check, failing_check]"]
    by (simp add: started_def schedule_def)
qed

subsection \<open>C6: a check that finds the running version\<close>

text \<open>
  Claim C6. When the check resolves with the version that is running, and the library
  emits during it only the events of the no-update case
  (\<^verbatim>\<open>checking-for-update\<close>, \<^verbatim>\<open>update-not-available\<close>), the manual
  \<^verbatim>\<open>checkForUpdates\<close> returns null and sends no message to the window; a timer
  firing with the same check sends none either.
\<close>

theorem same_version_check_is_silent:
  assumes "settles r = Returns (Some info)"
    and "version info = currentVersion s"
    and "list_all quiet_event (emitted r)"
  shows "fst (checkForUpdates r s) = Returns None \<and>
         ipc (snd (checkForUpdates r s)) = ipc s \<and>
         ipc (snd (fire_next r s)) = ipc s"
proof -
  let ?s1 = "console_log ''[app-updater] Manual update check requested'' [] s"
  have v: "currentVersion (snd (autoUpdater_checkForUpdates r ?s1)) = currentVersion s"
    using library_call_frame [of ?s1 CheckForUpdates r]
    by (simp add: autoUpdater_checkForUpdates_def handler_frame_def console_log_def)
  have a: "fst (checkForUpdates r s) = Returns None"
    using assms(1,2) v by (simp add: checkForUpdates_eq Let_def)
  have b: "ipc (snd (checkForUpdates r s)) = ipc s"
    using assms(3) by (simp add: checkForUpdates_ipc emit_all_quiet console_log_def)
  have c: "ipc (snd (fire_next r s)) = ipc s"
    using assms(1,3)
    by (simp add: fire_next_def Let_def timer_body_eq autoUpdater_checkForUpdates_def
        library_call_eq emit_all_quiet console_log_def split: option.splits)
  show ?thesis using a b c by simp
qed

theorem same_version_check_is_silent_witness:
  "settles same_version_check = Returns (Some release_120) \<and>
   version release_120 = currentVersion started \<and>
   list_all quiet_event (emitted same_version_check) \<and>
   fst (checkForUpdates same_version_check started) = Returns None \<and>
   ipc (snd (checkForUpdates same_version_check started)) = [] \<and>
   ipc (snd (fire_next same_version_check started)) = []"
proof -
  have h1: "settles same_version_check = Returns (Some release_120)"
    by (simp add: same_version_check_def)
  have h2: "version release_120 = currentVersion started"
    by (simp add: release_120_def started_value)
  have h3: "list_all quiet_event (emitted same_version_check)"
    by (simp add: same_version_check_def)
  have i: "ipc started = []" by (simp add: started_value)
  show ?thesis
    using h1 h2 h3 i same_version_check_is_silent [OF h1 h2 h3] by simp
qed

subsection \<open>C7: progress ticks are forwarded by every registered closure\<close>

text \<open>
  Short of another initialisation, no action changes the registered window or the
  registered closures.
\<close>

lemma perform_keeps_registration:
  "\<not> initializes a \<Longrightarrow>
   mainWindow (perform a s) = mainWindow s \<and> listeners (perform a s) = listeners s"
proof (cases a)
  case (CallInitialize w)
  assume "\<not> initializes a"
  then show ?thesis using CallInitialize by simp
next
  case (CallCheckForUpdates r)
  then show ?thesis using checkForUpdates_frame [of s r] by (simp add: handler_frame_def)
next
  case (CallDownloadUpdate r)
  then show ?thesis using downloadUpdate_frame [of s r] by (simp add: handler_frame_def)
next
  case CallQuitAndInstall
  then show ?thesis by (simp add: quitAndInstall_def Let_def console_log_def)
next
  case CallGetCurrentVersion
  then show ?thesis by simp
next
  case (TimerFires r)
  show ?thesis
  proof (cases "next_due (timers s)")
    case None
    then show ?thesis using TimerFires by (simp add: fire_next_def)
  next
    case (Some i)
    let ?t = "timers s ! i"
    let ?s1 = "s\<lparr>now := max (now s) (due ?t), timers := rearm i (timers s),
         fired := fired s @ [(max (now s) (due ?t), callback ?t)]\<rparr>"
    show ?thesis
      using Some TimerFires timer_body_frame [of ?s1 "callback ?t" r]
      by (simp add: fire_next_def Let_def handler_frame_def)
  qed
next
  case (LibraryEmits ev)
  then show ?thesis using emit_frame [of s ev] by (simp add: handler_frame_def)
next
  case (WindowDestroyed w)
  then show ?thesis by simp
qed

lemma run_keeps_registration:
  "list_all (\<lambda>a. \<not> initializes a) as \<Longrightarrow>
   mainWindow (run as s) = mainWindow s \<and> listeners (run as s) = listeners s"
  by (induction as arbitrary: s) (simp_all add: perform_keeps_registration)

text \<open>
  Every \<^verbatim>\<open>initializeAppUpdater\<close> registers one more closure for the progress
  event, and nothing else registers or removes one.
\<close>

lemma perform_progress_listeners:
  "progress_listeners (perform a s) = progress_listeners s + (if initializes a then 1 else 0)"
proof (cases "initializes a")
  case True
  then obtain w where "a = CallInitialize w" by (cases a) simp_all
  then show ?thesis
    by (simp add: progress_listeners_def initializeAppUpdater_listeners)
next
  case False
  then show ?thesis
    using perform_keeps_registration [of a s] by (simp add: progress_listeners_def)
qed

lemma run_progress_listeners:
  "progress_listeners (run as s) = progress_listeners s + length (filter initializes as)"
  by (induction as arbitrary: s) (simp_all add: perform_progress_listeners)

text \<open>
  Claim C7 as amended. A progress tick runs every registered progress closure, and each
  of them sends, when a live window is registered, exactly one message on the progress
  channel, with \<^verbatim>\<open>percent\<close>, \<^verbatim>\<open>bytesPerSecond\<close>, \<^verbatim>\<open>transferred\<close> and
  \<^verbatim>\<open>total\<close> copied from the tick. So a tick sends as many messages as
  \<^verbatim>\<open>initializeAppUpdater\<close> was called (exactly one after a single
  initialisation) and none when no window is registered; a sequence of ticks sends them
  tick by tick, in order, equal ticks included. The registered window is taken to be
  live: what happens on a destroyed window is not part of the statement.
\<close>

theorem progress_ticks_forwarded:
  assumes "window_alive s"
  shows "ipc (snd (on_download_progress p s)) =
           ipc s @
             (case mainWindow s of
                None \<Rightarrow> []
              | Some w \<Rightarrow>
                  [(w, APP_UPDATE_PROGRESS,
                    [(''percent'', JNumber (percent p)),
                     (''bytesPerSecond'', JNumber (bytesPerSecond p)),
                     (''transferred'', JNumber (transferred p)),
                     (''total'', JNumber (total' p))])]) \<and>
         fst (emit (DownloadProgress p) s) = Returns () \<and>
         ipc (snd (emit (DownloadProgress p) s)) =
           ipc s @
             (case mainWindow s of
                None \<Rightarrow> []
              | Some w \<Rightarrow>
                  replicate (progress_listeners s) (w, APP_UPDATE_PROGRESS, progress_payload p)) \<and>
         ipc (snd (emit_all (map DownloadProgress ps) s)) =
           ipc s @
             (case mainWindow s of
                None \<Rightarrow> []
              | Some w \<Rightarrow>
                  concat (map (\<lambda>p. replicate (progress_listeners s)
                                      (w, APP_UPDATE_PROGRESS, progress_payload p)) ps)) \<and>
         progress_listeners (run as (module_load (boot v))) = length (filter initializes as)"
proof -
  have m: "progress_message = (\<lambda>w p. (w, APP_UPDATE_PROGRESS, progress_payload p))"
    by (intro ext) (simp add: progress_message_def)
  have a: "ipc (snd (on_download_progress p s)) =
           ipc s @
             (case mainWindow s of
                None \<Rightarrow> []
              | Some w \<Rightarrow>
                  [(w, APP_UPDATE_PROGRESS,
                    [(''percent'', JNumber (percent p)),
                     (''bytesPerSecond'', JNumber (bytesPerSecond p)),
                     (''transferred'', JNumber (transferred p)),
                     (''total'', JNumber (total' p))])])"
    using assms
    by (auto simp: on_download_progress_def send_if_window_ipc console_simps
        progress_payload_def window_alive_def split: option.splits)
  have b: "fst (emit (DownloadProgress p) s) = Returns ()"
    using assms by (rule emit_returns)
  have c: "ipc (snd (emit (DownloadProgress p) s)) =
           ipc s @
             (case mainWindow s of
                None \<Rightarrow> []
              | Some w \<Rightarrow>
                  replicate (progress_listeners s) (w, APP_UPDATE_PROGRESS, progress_payload p))"
    using emit_progress [OF assms, of p] by (simp add: m cong: option.case_cong)
  have d: "ipc (snd (emit_all (map DownloadProgress ps) s)) =
           ipc s @
             (case mainWindow s of
                None \<Rightarrow> []
              | Some w \<Rightarrow>
                  concat (map (\<lambda>p. replicate (progress_listeners s)
                                      (w, APP_UPDATE_PROGRESS, progress_payload p)) ps))"
    using emit_all_progress [OF assms, of ps] by (simp add: m cong: option.case_cong)
  have e: "progress_listeners (run as (module_load (boot v))) = length (filter initializes as)"
    using run_progress_listeners [of as "module_load (boot v)"]
    by (simp add: progress_listeners_def module_load_def boot_def)
  show ?thesis using a b c d e by simp
qed

theorem progress_ticks_forwarded_witness:
  "window_alive downloading \<and>
   fst (emit (DownloadProgress example_tick) downloading) = Returns () \<and>
   ipc (snd (emit (DownloadProgress example_tick) downloading)) =
     ipc downloading @ [(1, APP_UPDATE_PROGRESS, progress_payload example_tick)] \<and>
   ipc (snd (emit_all (map DownloadProgress [example_tick, example_tick]) downloading)) =
     ipc downloading @
       [(1, APP_UPDATE_PROGRESS, progress_payload example_tick),
        (1, APP_UPDATE_PROGRESS, progress_payload example_tick)] \<and>
   progress_listeners
     (run [CallInitialize (Some 1), TimerFires found_130_check] (module_load (boot ''1.2.0''))) = 1"
proof -
  have h: "window_alive downloading"
    by (simp add: window_alive_def downloading_facts)
  show ?thesis
    using h
      progress_ticks_forwarded [OF h, of example_tick "[example_tick, example_tick]"
        "[CallInitialize (Some 1), TimerFires found_130_check]" "''1.2.0''"]
    by (simp add: downloading_facts)
qed

text \<open>
  C7 as stated: exactly one event for every tick. After a second
  \<^verbatim>\<open>initializeAppUpdater\<close> on the same window one tick sends two messages, and
  on an updater initialised without a window it sends none.
\<close>

theorem progress_tick_sent_twice_or_never:
  "ipc (snd (emit (DownloadProgress example_tick) (initializeAppUpdater (Some 1) started))) =
     [(1, APP_UPDATE_PROGRESS, progress_payload example_tick),
      (1, APP_UPDATE_PROGRESS, progress_payload example_tick)] \<and>
   length (ipc (snd (emit (DownloadProgress example_tick)
     (initializeAppUpdater (Some 1) started)))) \<noteq> 1 \<and>
   ipc (snd (emit (DownloadProgress example_tick) (initializeAppUpdater None loaded))) = [] \<and>
   length (ipc (snd (emit (DownloadProgress example_tick)
     (initializeAppUpdater None loaded)))) \<noteq> 1"
proof -
  let ?twice = "initializeAppUpdater (Some 1) started"
  let ?never = "initializeAppUpdater None loaded"
  have t: "window_alive ?twice" "mainWindow ?twice = Some 1" "ipc ?twice = []"
    "progress_listeners ?twice = 2"
    by (simp_all add: window_alive_def initializeAppUpdater_others init_defs started_value
        progress_listeners_def)
  have n: "window_alive ?never" "mainWindow ?never = None" "ipc ?never = []"
    by (simp_all add: window_alive_def initializeAppUpdater_others loaded_def module_load_def
        boot_def)
  have "replicate 2 (progress_message 1 example_tick) =
      [(1, APP_UPDATE_PROGRESS, progress_payload example_tick),
       (1, APP_UPDATE_PROGRESS, progress_payload example_tick)]"
    by (simp add: numeral_2_eq_2 progress_message_def)
  then show ?thesis
    using emit_progress [OF t(1), of example_tick] emit_progress [OF n(1), of example_tick] t n
    by simp
qed

subsection \<open>C8: a manual check during a download\<close>

text \<open>
  Claim C8 as amended. \<^verbatim>\<open>checkForUpdates\<close> keeps no phase and has no guard: in
  every world one call asks the library for one more check, and its result is what that
  check reports: the error thrown again, null for no result or for the running version,
  the reported version otherwise.
\<close>

theorem checkForUpdates_always_queries:
  "updater_calls (snd (checkForUpdates r s)) = updater_calls s @ [CheckForUpdates] \<and>
   fst (checkForUpdates r s) =
     (case settles r of
        Throws e \<Rightarrow> Throws e
      | Returns None \<Rightarrow> Returns None
      | Returns (Some info) \<Rightarrow>
          if version info = currentVersion s then Returns None
          else Returns (Some (info_payload info)))"
proof -
  let ?s1 = "console_log ''[app-updater] Manual update check requested'' [] s"
  have v: "currentVersion (snd (autoUpdater_checkForUpdates r ?s1)) = currentVersion s"
    using library_call_frame [of ?s1 CheckForUpdates r]
    by (simp add: autoUpdater_checkForUpdates_def handler_frame_def console_log_def)
  have c: "updater_calls (snd (checkForUpdates r s)) = updater_calls s @ [CheckForUpdates]"
    using checkForUpdates_frame [of s r] by (simp add: handler_frame_def)
  show ?thesis
    using v c by (simp add: checkForUpdates_eq Let_def split: outcome.splits option.splits)
qed

text \<open>
  C8 as stated: a no-op while a download runs. In the world where 1.3.0 is being
  downloaded (its first progress message is sent), a manual check queries the library a
  second time, changes the world and returns the 1.4.0 that this query reports, not the
  1.3.0 found before.
\<close>

theorem recheck_while_downloading_queries_again:
  "ipc downloading =
     [(1, APP_UPDATE_AVAILABLE, info_payload release_130),
      (1, APP_UPDATE_PROGRESS, progress_payload example_tick)] \<and>
   updater_calls downloading = [CheckForUpdates] \<and>
   updater_calls (snd (checkForUpdates found_140_check downloading)) =
     [CheckForUpdates, CheckForUpdates] \<and>
   snd (checkForUpdates found_140_check downloading) \<noteq> downloading \<and>
   fst (checkForUpdates found_140_check downloading) = Returns (Some (info_payload release_140)) \<and>
   fst (checkForUpdates found_140_check downloading) \<noteq> Returns (Some (info_payload release_130))"
proof -
  have c: "updater_calls (snd (checkForUpdates found_140_check downloading)) =
      [CheckForUpdates, CheckForUpdates]"
    using checkForUpdates_frame [of downloading found_140_check]
    by (simp add: handler_frame_def downloading_facts)
  then have "updater_calls (snd (checkForUpdates found_140_check downloading)) \<noteq>
      updater_calls downloading"
    by (simp add: downloading_facts)
  then have n: "snd (checkForUpdates found_140_check downloading) \<noteq> downloading"
    by auto
  have "currentVersion downloading = ''1.2.0''"
    using fire_next_flags timer_body_frame
    by (simp add: downloading_def started_value fire_next_def Let_def timer_body_eq
        run_listeners.simps(2) emit_all.simps(2)
        autoUpdater_checkForUpdates_def library_call_eq found_130_check_def rearm_def
        startup_timer_def poll_timer_def emit_def handler_defs send_if_window_def
        webContents_send_def console_log_def)
  then have r: "fst (checkForUpdates found_140_check downloading) =
      Returns (Some (info_payload release_140))"
    using library_call_frame [of "console_log ''[app-updater] Manual update check requested'' [] downloading" CheckForUpdates found_140_check]
    by (simp add: checkForUpdates_eq Let_def found_140_check_def release_140_def
        autoUpdater_checkForUpdates_def handler_frame_def console_log_def)
  have d: "info_payload release_140 \<noteq> info_payload release_130"
    by (simp add: info_payload_def release_140_def release_130_def)
  show ?thesis using c n r d by (simp add: downloading_facts)
qed

subsection \<open>C9: no window registered\<close>

text \<open>
  Claim C9. When \<^verbatim>\<open>mainWindow\<close> is null, each of the four handlers that send
  (update available, update downloaded, download progress, error) returns without
  throwing and sends nothing, and so does the emission of any event to the registered
  closures.
\<close>

theorem no_window_drops_events:
  assumes "mainWindow s = None"
  shows "fst (on_update_available info s) = Returns () \<and>
         ipc (snd (on_update_available info s)) = ipc s \<and>
         fst (on_update_downloaded info s) = Returns () \<and>
         ipc (snd (on_update_downloaded info s)) = ipc s \<and>
         fst (on_download_progress p s) = Returns () \<and>
         ipc (snd (on_download_progress p s)) = ipc s \<and>
         fst (on_error e s) = Returns () \<and>
         ipc (snd (on_error e s)) = ipc s \<and>
         fst (emit ev s) = Returns () \<and>
         ipc (snd (emit ev s)) = ipc s"
  using assms no_window_alive [OF assms]
  by (simp add: handler_defs send_if_window_returns send_if_window_ipc console_simps
      emit_returns emit_no_window)

theorem no_window_drops_events_witness:
  "mainWindow (initializeAppUpdater None loaded) = None \<and>
   listeners (initializeAppUpdater None loaded) =
     [OnUpdateAvailable, OnUpdateDownloaded, OnDownloadProgress, OnError,
      OnUpdateNotAvailable, OnCheckingForUpdate] \<and>
   fst (emit (ErrorEvent example_error) (initializeAppUpdater None loaded)) = Returns () \<and>
   ipc (snd (emit (ErrorEvent example_error) (initializeAppUpdater None loaded))) = [] \<and>
   fst (on_update_available release_130 (initializeAppUpdater None loaded)) = Returns () \<and>
   ipc (snd (on_update_available release_130 (initializeAppUpdater None loaded))) = [] \<and>
   fst (on_update_downloaded release_130 (initializeAppUpdater None loaded)) = Returns () \<and>
   ipc (snd (on_update_downloaded release_130 (initializeAppUpdater None loaded))) = [] \<and>
   fst (on_download_progress example_tick (initializeAppUpdater None loaded)) = Returns () \<and>
   ipc (snd (on_download_progress example_tick (initializeAppUpdater None loaded))) = [] \<and>
   fst (on_error example_error (initializeAppUpdater None loaded)) = Returns () \<and>
   ipc (snd (on_error example_error (initializeAppUpdater None loaded))) = []"
proof -
  let ?s = "initializeAppUpdater None loaded"
  have h: "mainWindow ?s = None" by (simp add: initializeAppUpdater_others)
  have l: "listeners ?s =
     [OnUpdateAvailable, OnUpdateDownloaded, OnDownloadProgress, OnError,
      OnUpdateNotAvailable, OnCheckingForUpdate]"
    by (simp add: initializeAppUpdater_listeners loaded_def module_load_def boot_def)
  have i: "ipc ?s = []"
    by (simp add: initializeAppUpdater_others loaded_def module_load_def boot_def)
  show ?thesis
    using h l i
      no_window_drops_events [OF h, of release_130 example_tick example_error
        "ErrorEvent example_error"]
    by simp
qed

subsection \<open>C10: the configuration set at module load\<close>

text \<open>
  Short of \<^verbatim>\<open>quitAndInstall\<close>, no action makes the installer call of line 235.
\<close>

lemma fire_next_calls:
  "updater_calls (snd (fire_next r s)) =
     updater_calls s @ (case next_due (timers s) of None \<Rightarrow> [] | Some i \<Rightarrow> [CheckForUpdates])"
proof (cases "next_due (timers s)")
  case None
  then show ?thesis by (simp add: fire_next_def)
next
  case (Some i)
  let ?t = "timers s ! i"
  let ?s1 = "s\<lparr>now := max (now s) (due ?t), timers := rearm i (timers s),
       fired := fired s @ [(max (now s) (due ?t), callback ?t)]\<rparr>"
  show ?thesis
    using Some timer_body_calls [of "callback ?t" r ?s1]
    by (simp add: fire_next_def Let_def)
qed

lemma perform_no_quitAndInstall:
  "\<not> calls_quitAndInstall a \<Longrightarrow>
   list_ex is_quitAndInstall (updater_calls (perform a s)) =
     list_ex is_quitAndInstall (updater_calls s)"
proof (cases a)
  case (CallInitialize w)
  then show ?thesis by (simp add: initializeAppUpdater_others)
next
  case (CallCheckForUpdates r)
  then show ?thesis using checkForUpdates_frame [of s r] by (simp add: handler_frame_def)
next
  case (CallDownloadUpdate r)
  then show ?thesis using downloadUpdate_frame [of s r] by (simp add: handler_frame_def)
next
  case CallQuitAndInstall
  assume "\<not> calls_quitAndInstall a"
  then show ?thesis using CallQuitAndInstall by simp
next
  case CallGetCurrentVersion
  then show ?thesis by simp
next
  case (TimerFires r)
  then show ?thesis by (simp add: fire_next_calls split: option.splits)
next
  case (LibraryEmits ev)
  then show ?thesis using emit_frame [of s ev] by (simp add: handler_frame_def)
next
  case (WindowDestroyed w)
  then show ?thesis by simp
qed

lemma run_no_quitAndInstall:
  "list_all (\<lambda>a. \<not> calls_quitAndInstall a) as \<Longrightarrow>
   list_ex is_quitAndInstall (updater_calls (run as s)) =
     list_ex is_quitAndInstall (updater_calls s)"
  by (induction as arbitrary: s) (simp_all add: perform_no_quitAndInstall)

lemma downloaded_calls: "updater_calls downloaded = [CheckForUpdates]"
  using emit_frame [of downloading "UpdateDownloaded release_130"]
  by (simp add: downloaded_def handler_frame_def downloading_facts)

text \<open>
  Claim C10. Loading the module sets \<^verbatim>\<open>autoDownload\<close> and
  \<^verbatim>\<open>autoInstallOnAppQuit\<close> to true, and no run of the module changes either. So
  when the application quits after any run in which \<^verbatim>\<open>quitAndInstall\<close> was never
  called, the library's quit handler finds the flag set and installs the update it has
  downloaded.
\<close>

theorem module_load_configuration:
  assumes "list_all (\<lambda>a. \<not> calls_quitAndInstall a) as" and "updater_calls s0 = []"
  shows "autoDownload (module_load s0) \<and> autoInstallOnAppQuit (module_load s0) \<and>
         autoDownload (run as (module_load s0)) \<and>
         autoInstallOnAppQuit (run as (module_load s0)) \<and>
         updater_calls (app_quit (Some info) (run as (module_load s0))) =
           updater_calls (run as (module_load s0)) @ [InstallOnQuit info]"
proof -
  have f: "autoDownload (module_load s0)" "autoInstallOnAppQuit (module_load s0)"
    by (simp_all add: module_load_def)
  have r: "autoDownload (run as (module_load s0))"
    "autoInstallOnAppQuit (run as (module_load s0))"
    using f by (simp_all add: run_flags)
  have "\<not> list_ex is_quitAndInstall (updater_calls (module_load s0))"
    using assms(2) by (simp add: module_load_def)
  then have "\<not> list_ex is_quitAndInstall (updater_calls (run as (module_load s0)))"
    using run_no_quitAndInstall [OF assms(1), of "module_load s0"] by simp
  then have "updater_calls (app_quit (Some info) (run as (module_load s0))) =
      updater_calls (run as (module_load s0)) @ [InstallOnQuit info]"
    using r(2) by (simp add: app_quit_def)
  then show ?thesis using f r by simp
qed

theorem module_load_configuration_witness:
  "list_all (\<lambda>a. \<not> calls_quitAndInstall a)
     [CallInitialize (Some 1), TimerFires found_130_check,
      LibraryEmits (UpdateDownloaded release_130)] \<and>
   updater_calls (boot ''1.2.0'') = [] \<and>
   run [CallInitialize (Some 1), TimerFires found_130_check,
        LibraryEmits (UpdateDownloaded release_130)] (module_load (boot ''1.2.0'')) =
     downloaded \<and>
   autoInstallOnAppQuit downloaded \<and>
   updater_calls (app_quit (Some release_130) downloaded) =
     [CheckForUpdates, InstallOnQuit release_130] \<and>
   app_quit (Some release_130) (boot ''1.2.0'') = boot ''1.2.0''"
proof -
  let ?as = "[CallInitialize (Some 1), TimerFires found_130_check,
      LibraryEmits (UpdateDownloaded release_130)]"
  have h1: "list_all (\<lambda>a. \<not> calls_quitAndInstall a) ?as" by simp
  have h2: "updater_calls (boot ''1.2.0'') = []" by (simp add: boot_def)
  have d: "run ?as (module_load (boot ''1.2.0'')) = downloaded"
    by (simp add: downloaded_def downloading_def started_def loaded_def)
  have q: "app_quit (Some release_130) (boot ''1.2.0'') = boot ''1.2.0''"
    by (simp add: app_quit_def boot_def)
  have u: "autoInstallOnAppQuit downloaded \<and>
      updater_calls (app_quit (Some release_130) downloaded) =
        updater_calls downloaded @ [InstallOnQuit release_130]"
    using module_load_configuration [OF h1 h2, of release_130] unfolding d by simp
  show ?thesis
    using h1 h2 d q u by (simp only: downloaded_calls append.simps simp_thms)
qed

end
